theory Spec2Isabelle
  imports Main "HOL-Library.Word" "HOL-Library.Multiset"
begin

unbundle bit_operations_syntax

section \<open>Scalar types\<close>

text \<open>
  \<open>Scn\<close> wraps a \<open>uint64_t\<close>, \<open>Seq\<close> a \<open>uint32_t\<close>; every comparison operator of
  both classes compares the wrapped integers, so the word order is the order of the code.
  \<open>Scn::none()\<close> is the all-ones value and therefore the largest \<open>Scn\<close>.
\<close>

type_synonym Scn = "64 word"
type_synonym Seq = "32 word"
type_synonym Xid = "64 word"
type_synonym typeBlk = "32 word"
type_synonym typeSum = "16 word"
type_synonym typeIdx = "64 word"

definition Scn_none :: Scn where
  "Scn_none = 0xFFFFFFFFFFFFFFFF"

definition Scn_zero :: Scn where
  "Scn_zero = 0"

definition Seq_none :: Seq where
  "Seq_none = 0xFFFFFFFF"

definition Seq_zero :: Seq where
  "Seq_zero = 0"

section \<open>MemoryManager: choosing the chunk to swap\<close>

text \<open>
  \<open>SwapChunk\<close> is declared in \<open>Ctx.h\<close>, which is not among the sources; the record holds
  the four members \<open>MemoryManager.cpp\<close> reads and writes. \<open>chunks\<close> is the vector of chunk
  pointers (an address per chunk, 0 for \<open>nullptr\<close>); \<open>swappedMin\<close> and \<open>swappedMax\<close> are
  \<open>int64_t\<close> with \<open>-1\<close> meaning that nothing is swapped out.
\<close>

record SwapChunk =
  chunks :: "nat list"
  swappedMin :: int
  swappedMax :: int
  release :: bool

text \<open>
  The range-for of \<open>getChunkToSwap\<close> over \<open>ctx->swapChunks\<close>, in iteration order. The
  pair is \<open>(xid, index)\<close>, the two reference parameters. \<open>chunks.size() - 2\<close> is computed
  in \<open>size_t\<close> and cast to \<open>int64_t\<close>; the test before it skips every entry with fewer than
  two chunks, so the subtraction never wraps where it is evaluated.
\<close>

fun scanSwapChunks :: "Xid \<Rightarrow> (Xid \<times> SwapChunk) list \<Rightarrow> Xid \<times> int \<Rightarrow> Xid \<times> int" where
  "scanSwapChunks swappedFlushXid [] out = out"
| "scanSwapChunks swappedFlushXid ((swapXid, sc) # rest) out =
     (if swappedFlushXid = swapXid \<or> release sc \<or> length (chunks sc) \<le> 1
      then scanSwapChunks swappedFlushXid rest out
      else if swappedMax sc < int (length (chunks sc)) - 2
      then (swapXid, swappedMax sc + 1)
      else scanSwapChunks swappedFlushXid rest out)"

text \<open>
  \<open>MemoryManager::getChunkToSwap(Xid& xid, int64_t& index)\<close>. \<open>ctx->nothingToSwap(this)\<close>
  and \<open>ctx->swappedFlushXid\<close> belong to \<open>Ctx\<close> and are parameters.
\<close>

definition getChunkToSwap ::
    "bool \<Rightarrow> Xid \<Rightarrow> (Xid \<times> SwapChunk) list \<Rightarrow> Xid \<times> int \<Rightarrow> Xid \<times> int" where
  "getChunkToSwap nothingToSwap swappedFlushXid swapChunks out =
     (if nothingToSwap then out else scanSwapChunks swappedFlushXid swapChunks out)"

section \<open>Writer: confirmations and the client checkpoint\<close>

text \<open>
  The members of \<open>BuilderMsg\<close> that \<open>Writer::confirmMessage\<close> compares. The reference
  count and the data buffers of a message (released by \<open>decRef\<close> and \<open>freeChunk\<close>) hold no
  SCN and are left out.
\<close>

record BuilderMsg =
  lwnScn :: Scn
  lwnIdx :: typeIdx

text \<open>The members of \<open>Metadata\<close> that \<open>Writer::readCheckpoint\<close> assigns.\<close>

record WriterMetadata =
  resetlogs :: "32 word"
  activation :: "32 word"
  clientScn :: Scn
  clientIdx :: typeIdx
  startScn :: Scn
  startSequence :: Seq
  startTime :: string
  startTimeRel :: "64 word"
  statusReplicate :: bool

text \<open>
  The JSON document \<open>writeCheckpoint\<close> builds:
  \<open>{"database":..,"scn":..,"idx":..,"resetlogs":..,"activation":..}\<close>.
\<close>

record CheckpointDoc =
  doc_database :: string
  doc_scn :: Scn
  doc_idx :: typeIdx
  doc_resetlogs :: "32 word"
  doc_activation :: "32 word"

text \<open>
  The writer's members. \<open>stateWrites\<close> is the trace of the calls
  \<open>metadata->stateWrite(name, scn, document)\<close> in call order, each with the value it
  returned; a document is persisted exactly when such a call is made and returns true.
\<close>

record Writer =
  database :: string
  checkpointScn :: Scn
  checkpointIdx :: typeIdx
  checkpointTime :: int
  confirmedScn :: Scn
  confirmedIdx :: typeIdx
  queue :: "BuilderMsg list"
  redo :: bool
  metadata :: WriterMetadata
  stateWrites :: "(string \<times> Scn \<times> CheckpointDoc \<times> bool) list"

text \<open>
  The member initialisers of \<open>Writer.h\<close> and the constructor: both SCNs start as
  \<open>Scn::none()\<close>, both indexes as 0, \<open>checkpointTime\<close> as the current time.
\<close>

definition Writer_new :: "string \<Rightarrow> int \<Rightarrow> WriterMetadata \<Rightarrow> Writer" where
  "Writer_new newDatabase now newMetadata =
     \<lparr>database = newDatabase, checkpointScn = Scn_none, checkpointIdx = 0,
      checkpointTime = now, confirmedScn = Scn_none, confirmedIdx = 0, queue = [],
      redo = False, metadata = newMetadata, stateWrites = []\<rparr>"

text \<open>The test of \<open>confirmMessage\<close>: the message is strictly after the confirmed position.\<close>

definition msgNewer :: "BuilderMsg \<Rightarrow> Writer \<Rightarrow> bool" where
  "msgNewer msg w =
     (lwnScn msg > confirmedScn w \<or> (lwnScn msg = confirmedScn w \<and> lwnIdx msg > confirmedIdx w))"

text \<open>
  \<open>Writer::confirmMessage\<close>; \<open>now\<close> is the value of \<open>time(nullptr)\<close>. The test is made
  twice in the source (before and after taking the mutex); the second part drops the
  confirmed prefix of the queue.
\<close>

definition confirmMessage :: "int \<Rightarrow> BuilderMsg \<Rightarrow> Writer \<Rightarrow> Writer" where
  "confirmMessage now msg w =
     (let w1 = (if msgNewer msg w
                then w\<lparr>confirmedScn := lwnScn msg, confirmedIdx := lwnIdx msg,
                       checkpointScn := lwnScn msg, checkpointIdx := lwnIdx msg,
                       checkpointTime := now\<rparr>
                else w)
      in w1\<lparr>queue := dropWhile
                 (\<lambda>q. lwnScn q < confirmedScn w1 \<or>
                      (lwnScn q = confirmedScn w1 \<and> lwnIdx q \<le> confirmedIdx w1))
                 (queue w1)\<rparr>)"

text \<open>
  \<open>Writer::writeCheckpoint(bool force)\<close>. \<open>checkpointIntervalS\<close> is \<open>ctx->checkpointIntervalS\<close>,
  \<open>now\<close> the value of \<open>time(nullptr)\<close> and \<open>stateWriteOk\<close> what \<open>metadata->stateWrite\<close>
  returns if it is called. \<open>now - checkpointTime\<close> is converted to \<open>uint64_t\<close>.
\<close>

definition writeCheckpoint :: "64 word \<Rightarrow> int \<Rightarrow> bool \<Rightarrow> bool \<Rightarrow> Writer \<Rightarrow> Writer" where
  "writeCheckpoint checkpointIntervalS now stateWriteOk force0 w0 =
     (let w = w0\<lparr>redo := False\<rparr> in
      if (checkpointScn w = confirmedScn w \<and> checkpointIdx w = confirmedIdx w)
         \<or> confirmedScn w = Scn_none
      then w
      else
        let force = (if checkpointScn w = Scn_none then True else force0);
            timeSinceCheckpoint = (word_of_int (now - checkpointTime w) :: 64 word)
        in if timeSinceCheckpoint < checkpointIntervalS \<and> \<not> force then w
           else
             let doc = \<lparr>doc_database = database w, doc_scn = confirmedScn w,
                        doc_idx = confirmedIdx w,
                        doc_resetlogs = resetlogs (metadata w),
                        doc_activation = activation (metadata w)\<rparr>;
                 w' = w\<lparr>stateWrites := stateWrites w @
                          [(database w @ ''-chkpt'', confirmedScn w, doc, stateWriteOk)]\<rparr>
             in if stateWriteOk
                then w'\<lparr>checkpointScn := confirmedScn w, checkpointIdx := confirmedIdx w,
                        checkpointTime := now\<rparr>
                else w')"

text \<open>
  What \<open>metadata->stateRead\<close> and the JSON parser give \<open>readCheckpoint\<close>: no stored state,
  a state that does not parse or lacks a field (every such case throws
  \<open>DataException(20001)\<close>), or a document with its fields; \<open>idx\<close> is optional.
\<close>

datatype StoredState =
    StateAbsent
  | StateUnparsable
  | StateDoc string "32 word" "32 word" Scn "typeIdx option"

text \<open>\<open>Writer::readCheckpoint\<close>; \<open>Inl\<close> carries the code of the \<open>DataException\<close>.\<close>

definition readCheckpoint :: "StoredState \<Rightarrow> Writer \<Rightarrow> nat + Writer" where
  "readCheckpoint stored w =
     (case stored of
        StateAbsent \<Rightarrow> Inr w
      | StateUnparsable \<Rightarrow> Inl 20001
      | StateDoc databaseJson rl act scnJson idxJson \<Rightarrow>
          if database w \<noteq> databaseJson then Inl 20001
          else
            let idx = (case idxJson of Some i \<Rightarrow> i | None \<Rightarrow> 0)
            in Inr (w\<lparr>checkpointScn := scnJson, checkpointIdx := idx,
                      metadata := (metadata w)\<lparr>resetlogs := rl, activation := act,
                        clientScn := scnJson, clientIdx := idx, startScn := scnJson,
                        startSequence := Seq_none, startTime := [], startTimeRel := 0,
                        statusReplicate := True\<rparr>\<rparr>))"

text \<open>
  The statements of \<open>Writer::mainLoop\<close> after its loop (``make sure the final checkpoint
  is written''): \<open>if (checkpointScn != Scn::none()) writeCheckpoint(true)\<close>.
\<close>

definition mainLoop_exit :: "64 word \<Rightarrow> int \<Rightarrow> bool \<Rightarrow> Writer \<Rightarrow> Writer" where
  "mainLoop_exit checkpointIntervalS now stateWriteOk w =
     (if checkpointScn w \<noteq> Scn_none
      then writeCheckpoint checkpointIntervalS now stateWriteOk True w
      else w)"

text \<open>
  The calls made on a writer in \<open>Writer::run\<close> after \<open>readCheckpoint\<close>:
  \<open>confirmMessage(msg)\<close>, with the value of \<open>time(nullptr)\<close>, and
  \<open>writeCheckpoint(force)\<close>, with the interval, the time and the result of
  \<open>stateWrite\<close>; and a sequence of such calls made in order.
\<close>

datatype WriterCall = CallConfirm int BuilderMsg | CallCheckpoint "64 word" int bool bool

fun writerCall :: "WriterCall \<Rightarrow> Writer \<Rightarrow> Writer" where
  "writerCall (CallConfirm now msg) w = confirmMessage now msg w"
| "writerCall (CallCheckpoint i now ok force) w = writeCheckpoint i now ok force w"

definition writerCalls :: "WriterCall list \<Rightarrow> Writer \<Rightarrow> Writer" where
  "writerCalls cs w = foldl (\<lambda>v c. writerCall c v) w cs"

text \<open>
  A \<open>Metadata\<close> object before any checkpoint has been read, with the initialisers of
  \<open>Metadata.h\<close> where it has them; used as a concrete input.
\<close>

definition metadata0 :: WriterMetadata where
  "metadata0 = \<lparr>resetlogs = 0, activation = 0, clientScn = Scn_none, clientIdx = 0,
     startScn = Scn_none, startSequence = Seq_none, startTime = [], startTimeRel = 0,
     statusReplicate = False\<rparr>"

section \<open>Parser: the heap of LWN members\<close>

text \<open>\<open>struct LwnMember\<close> of \<open>Parser.h\<close> with its \<open>operator<\<close>.\<close>

record LwnMember =
  pageOffset :: "16 word"
  scn :: Scn
  size_lwn :: "32 word"
  block :: typeBlk
  subScn :: "16 word"

definition LwnMember_less :: "LwnMember \<Rightarrow> LwnMember \<Rightarrow> bool" where
  "LwnMember_less m other = (pageOffset m < pageOffset other)"

definition MAX_RECORDS_IN_LWN :: nat where
  "MAX_RECORDS_IN_LWN = 1048576"

text \<open>
  \<open>lwnMembers\<close> is an array of \<open>MAX_RECORDS_IN_LWN + 1\<close> pointers used from index 1; it is
  modelled as a function from the index to the member pointed to (members are not changed
  once they are in the array). The loop of lines 647-650 moves parents down while the new
  member is smaller; it returns the array and the final \<open>lwnPos\<close>.
\<close>

function siftUp :: "LwnMember \<Rightarrow> (nat \<Rightarrow> LwnMember) \<Rightarrow> nat \<Rightarrow> (nat \<Rightarrow> LwnMember) \<times> nat" where
  "siftUp lwnMember lwnMembers lwnPos =
     (if lwnPos > 1 \<and> LwnMember_less lwnMember (lwnMembers (lwnPos div 2))
      then siftUp lwnMember (lwnMembers(lwnPos := lwnMembers (lwnPos div 2))) (lwnPos div 2)
      else (lwnMembers, lwnPos))"
  by pat_completeness auto
termination
  by (relation "measure (\<lambda>(m, a, pos). pos)") auto

declare siftUp.simps [simp del]

datatype ParserException = DataException nat | RedoLogException nat

text \<open>
  Lines 643-651 of \<open>Parser::parse\<close>: the new member enters the heap. The pair is
  \<open>(lwnMembers, lwnRecords)\<close>.
\<close>

definition lwnInsert ::
    "LwnMember \<Rightarrow> (nat \<Rightarrow> LwnMember) \<times> nat \<Rightarrow> ParserException + ((nat \<Rightarrow> LwnMember) \<times> nat)" where
  "lwnInsert lwnMember heap =
     (let lwnRecords = snd heap + 1; lwnPos = lwnRecords in
      if lwnPos \<ge> MAX_RECORDS_IN_LWN then Inl (RedoLogException 50054)
      else
        let (lwnMembers, pos) = siftUp lwnMember (fst heap) lwnPos
        in Inr (lwnMembers(pos := lwnMember), lwnRecords))"

text \<open>Inserting the records of a batch in the order the blocks are scanned.\<close>

fun lwnInsertAll ::
    "LwnMember list \<Rightarrow> (nat \<Rightarrow> LwnMember) \<times> nat \<Rightarrow> ParserException + ((nat \<Rightarrow> LwnMember) \<times> nat)" where
  "lwnInsertAll [] heap = Inr heap"
| "lwnInsertAll (m # ms) heap =
     (case lwnInsert m heap of Inl e \<Rightarrow> Inl e | Inr heap' \<Rightarrow> lwnInsertAll ms heap')"

text \<open>
  The inner \<open>while (true)\<close> of lines 712-728: the hole at \<open>lwnPos\<close> moves down towards the
  smaller child while a child is smaller than the last member \<open>lwnMembers[lwnRecords]\<close>.
  In the source \<open>lwnPos\<close> starts at 1 and only grows; the first test makes the recursion
  well-founded for the index 0 as well, which the source never passes.
\<close>

function siftDown :: "(nat \<Rightarrow> LwnMember) \<Rightarrow> nat \<Rightarrow> nat \<Rightarrow> (nat \<Rightarrow> LwnMember) \<times> nat" where
  "siftDown lwnMembers lwnRecords lwnPos =
     (if lwnPos = 0 then (lwnMembers, lwnPos)
      else if lwnPos * 2 < lwnRecords \<and>
              LwnMember_less (lwnMembers (lwnPos * 2)) (lwnMembers lwnRecords)
      then (if lwnPos * 2 + 1 < lwnRecords \<and>
               LwnMember_less (lwnMembers (lwnPos * 2 + 1)) (lwnMembers (lwnPos * 2))
            then siftDown (lwnMembers(lwnPos := lwnMembers (lwnPos * 2 + 1))) lwnRecords
                   (lwnPos * 2 + 1)
            else siftDown (lwnMembers(lwnPos := lwnMembers (lwnPos * 2))) lwnRecords
                   (lwnPos * 2))
      else if lwnPos * 2 + 1 < lwnRecords \<and>
              LwnMember_less (lwnMembers (lwnPos * 2 + 1)) (lwnMembers lwnRecords)
      then siftDown (lwnMembers(lwnPos := lwnMembers (lwnPos * 2 + 1))) lwnRecords
             (lwnPos * 2 + 1)
      else (lwnMembers, lwnPos))"
  by pat_completeness auto
termination
  by (relation "measure (\<lambda>(a, n, pos). n - pos)") auto

declare siftDown.simps [simp del]

text \<open>Lines 711-731: the root is removed and the last member takes the place of the hole.\<close>

definition lwnPop :: "(nat \<Rightarrow> LwnMember) \<Rightarrow> nat \<Rightarrow> (nat \<Rightarrow> LwnMember)" where
  "lwnPop lwnMembers lwnRecords =
     (let (a, lwnPos) = siftDown lwnMembers lwnRecords 1
      in a(lwnPos := a lwnRecords))"

text \<open>
  \<open>analyzeLwn\<close> either returns or throws a \<open>DataException\<close> or a \<open>RedoLogException\<close>;
  what it does with the record otherwise is outside the claims. The events record the
  calls the parser makes, in order.
\<close>

datatype AnalyzeResult = Analyzed | ThrowsData nat | ThrowsRedo nat

datatype ParserEvent =
    AnalyzeLwn LwnMember
  | CtxError nat
  | CtxWarning nat
  | CtxInfo nat
  | ProcessCheckpoint Scn Seq "32 word" "typeBlk \<times> 32 word" bool
  | TransactionBufferCheckpoint
  | MetadataCheckpoint Scn "32 word" Seq "typeBlk \<times> 32 word" "64 word" Seq "64 word" Xid
  | StopSoft
  | EmitCheckpointsOut nat
  | EmitCheckpointsSkip nat
  | FreeLwn
  | EmitBytesParsed "32 word"

text \<open>
  One pass of the \<open>try\<close> block of lines 690-704: the call and, when it throws, either the
  two log lines (with \<open>IGNORE_DATA_ERRORS\<close>) or the exception thrown on.
\<close>

definition analyzeStep ::
    "(LwnMember \<Rightarrow> AnalyzeResult) \<Rightarrow> bool \<Rightarrow> LwnMember \<Rightarrow> ParserException + ParserEvent list" where
  "analyzeStep analyzeLwn ignoreDataErrors m =
     (case analyzeLwn m of
        Analyzed \<Rightarrow> Inr [AnalyzeLwn m]
      | ThrowsData c \<Rightarrow>
          if ignoreDataErrors then Inr [AnalyzeLwn m, CtxError c, CtxWarning 60013]
          else Inl (DataException c)
      | ThrowsRedo c \<Rightarrow>
          if ignoreDataErrors then Inr [AnalyzeLwn m, CtxError c, CtxWarning 60013]
          else Inl (RedoLogException c))"

text \<open>The loop \<open>while (lwnRecords > 0)\<close> of lines 689-732.\<close>

function dispatchLwn ::
    "(LwnMember \<Rightarrow> AnalyzeResult) \<Rightarrow> bool \<Rightarrow> (nat \<Rightarrow> LwnMember) \<Rightarrow> nat \<Rightarrow>
     ParserException + ParserEvent list" where
  "dispatchLwn analyzeLwn ignoreDataErrors lwnMembers lwnRecords =
     (if lwnRecords = 0 then Inr []
      else
        case analyzeStep analyzeLwn ignoreDataErrors (lwnMembers 1) of
          Inl e \<Rightarrow> Inl e
        | Inr evs \<Rightarrow>
            if lwnRecords = 1 then Inr evs
            else
              (case dispatchLwn analyzeLwn ignoreDataErrors
                      (lwnPop lwnMembers lwnRecords) (lwnRecords - 1) of
                 Inl e \<Rightarrow> Inl e
               | Inr rest \<Rightarrow> Inr (evs @ rest)))"
  by pat_completeness auto
termination
  by (relation "measure (\<lambda>(f, i, a, n). n)") auto

declare dispatchLwn.simps [simp del]

text \<open>The members handed to \<open>analyzeLwn\<close>, in call order.\<close>

fun dispatched :: "ParserEvent list \<Rightarrow> LwnMember list" where
  "dispatched [] = []"
| "dispatched (AnalyzeLwn m # evs) = m # dispatched evs"
| "dispatched (e # evs) = dispatched evs"

text \<open>The members of the heap as a multiset: the entries 1 to \<open>lwnRecords\<close>.\<close>

definition heapMembers :: "(nat \<Rightarrow> LwnMember) \<Rightarrow> nat \<Rightarrow> LwnMember multiset" where
  "heapMembers lwnMembers lwnRecords = image_mset lwnMembers (mset_set {1..lwnRecords})"

section \<open>Parser: the end of an LWN batch\<close>

text \<open>
  Modelled from the spec: \<open>TransactionBuffer::checkpoint\<close> is called by \<open>Parser::parse\<close>
  but neither defined nor declared in the sources. The spec gives
  ``\<open>checkpoint() \<rightarrow> (minSequence, minFileOffset, minXid)\<close> - picks the oldest-still-open
  transaction'', \<open>minSequence\<close> being ``the oldest still-open transaction's start
  sequence''. The three values are reference parameters; the parser passes
  \<open>Seq::none()\<close>, a default \<open>FileOffset\<close> and a default \<open>Xid\<close>.
\<close>

record OpenTransaction =
  t_xid :: Xid
  firstSequence :: Seq
  firstFileOffset :: "64 word"

fun TransactionBuffer_checkpoint ::
    "OpenTransaction list \<Rightarrow> Seq \<times> 64 word \<times> Xid \<Rightarrow> Seq \<times> 64 word \<times> Xid" where
  "TransactionBuffer_checkpoint [] out = out"
| "TransactionBuffer_checkpoint (t # ts) (minSequence, minFileOffset, minXid) =
     TransactionBuffer_checkpoint ts
       (if firstSequence t < minSequence \<or>
           (firstSequence t = minSequence \<and> firstFileOffset t < minFileOffset)
        then (firstSequence t, firstFileOffset t, t_xid t)
        else (minSequence, minFileOffset, minXid))"

text \<open>
  The variables of \<open>Parser::parse\<close> and the members of \<open>Parser\<close> and \<open>Ctx\<close> that the end
  of a batch (lines 683-771) reads or writes. The names carry the prefix \<open>p_\<close>.
\<close>

record Parser =
  p_lwnMembers :: "nat \<Rightarrow> LwnMember"
  p_lwnRecords :: nat
  p_lwnScn :: Scn
  p_lwnTimestamp :: "32 word"
  p_sequence :: Seq
  p_currentBlock :: typeBlk
  p_lwnEndBlock :: typeBlk
  p_lwnNumCnt :: "16 word"
  p_lwnNumMax :: "16 word"
  p_lwnConfirmedBlock :: typeBlk
  p_switchRedo :: bool
  p_stopCheckpoints :: "64 word"
  p_softShutdown :: bool

text \<open>
  What the end of a batch reads from its collaborators: the behaviour of \<open>analyzeLwn\<close>,
  the flag \<open>IGNORE_DATA_ERRORS\<close>, whether \<open>ctx->metrics\<close> is set,
  \<open>metadata->firstDataScn\<close>, the answer of \<open>metadata->isNewData\<close>,
  \<open>reader->getBlockSize()\<close> and the open transactions of the transaction buffer.
\<close>

record BatchEnv =
  analyzeLwn :: "LwnMember \<Rightarrow> AnalyzeResult"
  ignoreDataErrors :: bool
  metricsOn :: bool
  firstDataScn :: Scn
  isNewData :: bool
  readerBlockSize :: "32 word"
  openTransactions :: "OpenTransaction list"

text \<open>
  Lines 750-756: the countdown of \<open>ctx->stopCheckpoints\<close>, which ends in \<open>ctx->stopSoft()\<close>.
\<close>

definition stopCheckpointsStep :: "BatchEnv \<Rightarrow> Parser \<Rightarrow> Parser \<times> ParserEvent list" where
  "stopCheckpointsStep env p =
     (if p_stopCheckpoints p > 0 \<and> isNewData env
      then
        let p' = p\<lparr>p_stopCheckpoints := p_stopCheckpoints p - 1\<rparr>
        in if p_stopCheckpoints p' = 0
           then (p'\<lparr>p_softShutdown := True\<rparr>, [CtxInfo 0, StopSoft])
           else (p', [])
      else (p, []))"

text \<open>
  Lines 737-748: the two checkpoint calls with their arguments. A \<open>FileOffset\<close> is kept
  as the pair \<open>(block, blockSize)\<close> it is constructed from, and the timestamp as the raw
  \<open>lwnTimestamp\<close> (the class \<open>Time\<close> with \<open>toEpoch\<close> is not among the sources).
\<close>

definition checkpointCalls :: "BatchEnv \<Rightarrow> Parser \<Rightarrow> ParserEvent list" where
  "checkpointCalls env p =
     (let fileOffset = (p_currentBlock p, readerBlockSize env);
          (minSequence, minFileOffset, minXid) =
             TransactionBuffer_checkpoint (openTransactions env) (Seq_none, 0, 0)
      in [ProcessCheckpoint (p_lwnScn p) (p_sequence p) (p_lwnTimestamp p) fileOffset
            (p_switchRedo p),
          TransactionBufferCheckpoint,
          MetadataCheckpoint (p_lwnScn p) (p_lwnTimestamp p) (p_sequence p) fileOffset
            (ucast (p_currentBlock p - p_lwnConfirmedBlock p) * ucast (readerBlockSize env))
            minSequence minFileOffset minXid])"

text \<open>Lines 734-762: the checkpoint, or the skip metric.\<close>

definition checkpointOrSkip :: "BatchEnv \<Rightarrow> Parser \<Rightarrow> Parser \<times> ParserEvent list" where
  "checkpointOrSkip env p =
     (if p_lwnScn p > firstDataScn env
      then
        let (p', stop) = stopCheckpointsStep env p
        in (p', checkpointCalls env p @ stop @
                (if metricsOn env then [EmitCheckpointsOut 1] else []))
      else (p, if metricsOn env then [EmitCheckpointsSkip 1] else []))"

text \<open>Lines 764-769: the arena is released and the batch confirmed.\<close>

definition batchTail :: "BatchEnv \<Rightarrow> Parser \<Rightarrow> ParserEvent list" where
  "batchTail env p =
     FreeLwn #
     (if metricsOn env
      then [EmitBytesParsed ((p_currentBlock p - p_lwnConfirmedBlock p) * readerBlockSize env)]
      else [])"

text \<open>
  Lines 683-771 of \<open>Parser::parse\<close>, entered after \<open>++currentBlock\<close>. \<open>Inl\<close> is the
  exception that leaves \<open>parse\<close>. The entries of \<open>lwnMembers\<close> are dead once
  \<open>lwnRecords\<close> is 0 and are left as they were.
\<close>

definition lwnBatchEnd :: "BatchEnv \<Rightarrow> Parser \<Rightarrow> ParserException + (Parser \<times> ParserEvent list)" where
  "lwnBatchEnd env p =
     (if p_currentBlock p = p_lwnEndBlock p \<and> p_lwnNumCnt p = p_lwnNumMax p
      then
        case dispatchLwn (analyzeLwn env) (ignoreDataErrors env) (p_lwnMembers p)
               (p_lwnRecords p) of
          Inl e \<Rightarrow> Inl e
        | Inr evs \<Rightarrow>
            let (p1, cevs) = checkpointOrSkip env (p\<lparr>p_lwnRecords := 0\<rparr>)
            in Inr (p1\<lparr>p_lwnNumCnt := 0, p_lwnConfirmedBlock := p_currentBlock p\<rparr>,
                    evs @ cevs @ batchTail env p)
      else if p_lwnNumCnt p > p_lwnNumMax p then Inl (RedoLogException 50055)
      else Inr (p, []))"

text \<open>
  Concrete inputs: two records of one batch with the same SCN, \<open>recA\<close> in block 5 at
  page offset 200 with sub-SCN 1 and \<open>recB\<close> in block 6 at page offset 16 with sub-SCN 2;
  a parser at the end of that batch, and its collaborators.
\<close>

definition rec0 :: LwnMember where
  "rec0 = \<lparr>pageOffset = 0, scn = 0, size_lwn = 0, block = 0, subScn = 0\<rparr>"

definition recA :: LwnMember where
  "recA = \<lparr>pageOffset = 200, scn = 1000, size_lwn = 64, block = 5, subScn = 1\<rparr>"

definition recB :: LwnMember where
  "recB = \<lparr>pageOffset = 16, scn = 1000, size_lwn = 64, block = 6, subScn = 2\<rparr>"

definition parser0 :: Parser where
  "parser0 = \<lparr>p_lwnMembers = (\<lambda>i. rec0)(1 := recB, 2 := recA), p_lwnRecords = 2,
     p_lwnScn = 1000, p_lwnTimestamp = 77, p_sequence = 9, p_currentBlock = 7,
     p_lwnEndBlock = 7, p_lwnNumCnt = 1, p_lwnNumMax = 1, p_lwnConfirmedBlock = 5,
     p_switchRedo = False, p_stopCheckpoints = 0, p_softShutdown = False\<rparr>"

definition env0 :: BatchEnv where
  "env0 = \<lparr>analyzeLwn = (\<lambda>m. Analyzed), ignoreDataErrors = False, metricsOn = True,
     firstDataScn = 500, isNewData = True, readerBlockSize = 512,
     openTransactions = [\<lparr>t_xid = 3, firstSequence = 8, firstFileOffset = 1024\<rparr>]\<rparr>"

section \<open>Reader: bytes, checksum and block header\<close>

text \<open>
  A buffer is the memory behind a \<open>uint8_t*\<close>: a function from the offset to the byte.
\<close>

type_synonym buffer = "nat \<Rightarrow> 8 word"

text \<open>
  Modelled from the spec: \<open>Ctx::read16\<close> and \<open>Ctx::read32\<close> are not among the sources.
  The spec has ``Endianness is detected from bytes 28-31 of block 0'' and ``Big-endian and
  little-endian source databases both round-trip''; \<open>reloadHeaderRead\<close> calls
  \<open>ctx->setBigEndian()\<close> on the marker \<open>7A 7B 7C 7D\<close>. The two functions decode the
  bytes at an offset in the byte order the context is set to.
\<close>

definition read16 :: "bool \<Rightarrow> buffer \<Rightarrow> nat \<Rightarrow> 16 word" where
  "read16 bigEndian buf off =
     (if bigEndian
      then push_bit 8 (ucast (buf off)) OR ucast (buf (off + 1))
      else ucast (buf off) OR push_bit 8 (ucast (buf (off + 1))))"

definition read32 :: "bool \<Rightarrow> buffer \<Rightarrow> nat \<Rightarrow> 32 word" where
  "read32 bigEndian buf off =
     (if bigEndian
      then push_bit 24 (ucast (buf off)) OR push_bit 16 (ucast (buf (off + 1))) OR
           push_bit 8 (ucast (buf (off + 2))) OR ucast (buf (off + 3))
      else ucast (buf off) OR push_bit 8 (ucast (buf (off + 1))) OR
           push_bit 16 (ucast (buf (off + 2))) OR push_bit 24 (ucast (buf (off + 3))))"

text \<open>
  \<open>*reinterpret_cast<const uint64_t*>(buffer)\<close>: eight bytes read as one word in the byte
  order of the host, which is little-endian on the platforms the program is built for
  (x86-64, AArch64).
\<close>

definition load64 :: "buffer \<Rightarrow> nat \<Rightarrow> 64 word" where
  "load64 buf off =
     ucast (buf off) OR push_bit 8 (ucast (buf (off + 1))) OR
     push_bit 16 (ucast (buf (off + 2))) OR push_bit 24 (ucast (buf (off + 3))) OR
     push_bit 32 (ucast (buf (off + 4))) OR push_bit 40 (ucast (buf (off + 5))) OR
     push_bit 48 (ucast (buf (off + 6))) OR push_bit 56 (ucast (buf (off + 7)))"

text \<open>The loop of \<open>calcChSum\<close>: the XOR of the first \<open>n\<close> 8-byte words.\<close>

fun xorWords :: "buffer \<Rightarrow> nat \<Rightarrow> 64 word" where
  "xorWords buf 0 = 0"
| "xorWords buf (Suc n) = xorWords buf n XOR load64 buf (8 * n)"

text \<open>The two folding steps \<open>sum ^= (sum >> 32); sum ^= (sum >> 16)\<close>.\<close>

definition foldSum :: "64 word \<Rightarrow> 64 word" where
  "foldSum s = (let s1 = s XOR drop_bit 32 s in s1 XOR drop_bit 16 s1)"

text \<open>The low 16 bits of the folded sum.\<close>

definition fold16 :: "64 word \<Rightarrow> 16 word" where
  "fold16 s = ucast (foldSum s)"

text \<open>\<open>Reader::calcChSum(buffer, size)\<close>; \<open>bigEndian\<close> is the byte order of the context.\<close>

definition calcChSum :: "bool \<Rightarrow> buffer \<Rightarrow> nat \<Rightarrow> typeSum" where
  "calcChSum bigEndian buf sz =
     (let oldChSum = read16 bigEndian buf 14;
          s = foldSum (xorWords buf (sz div 8)) XOR ucast oldChSum
      in ucast (s AND 0xFFFF))"

datatype REDO_CODE =
    OK | OVERWRITTEN | FINISHED | STOPPED | SHUTDOWN | EMPTY | ERROR_READ | ERROR_WRITE
  | ERROR_SEQUENCE | ERROR_CRC | ERROR_BLOCK | ERROR_BAD_DATA | ERROR

datatype STATUS = SLEEPING | CHECK | UPDATE | READ

text \<open>
  What the reader does to the outside, in order: log lines by their code (the message
  texts are left out), sleeps, metrics and the calls on the copy file.
\<close>

datatype ReaderEvent =
    LogError nat
  | LogWarning nat
  | LogHint
  | LogInfo nat
  | Sleep
  | EmitBytesRead int
  | BufferAllocate nat
  | CopyClose
  | CopyOpen Seq
  | CopyWrite int "64 word"

text \<open>The members of \<open>Ctx\<close> the reader reads or sets.\<close>

record Ctx =
  softShutdown :: bool
  bigEndian :: bool
  version :: "32 word"
  columnLimit23 :: bool
  disableChecksBlockSum :: bool
  redoCopyPathEmpty :: bool
  redoVerifyDelayUs :: "64 word"
  metricsSet :: bool
  memoryChunksReadBufferMax :: "64 word"

record Reader =
  ctx :: Ctx
  group :: int
  sequence :: Seq
  status :: STATUS
  blockSize :: "32 word"
  hintDisplayed :: bool
  configuredBlockSum :: bool
  fileSize :: "64 word"
  fileCopyDes :: int
  fileCopySequence :: Seq
  headerBuffer :: buffer
  compatVsn :: "32 word"
  r_activation :: "32 word"
  numBlocksHeader :: typeBlk
  r_resetlogs :: "32 word"
  firstScnHeader :: Scn
  firstTimeHeader :: "32 word"
  nextScnHeader :: Scn
  nextTime :: "32 word"
  firstScn :: Scn
  nextScn :: Scn
  bufferScan :: "64 word"
  bufferEnd :: "64 word"
  lastRead :: "32 word"
  lastReadTime :: "64 word"
  readBlocks :: bool
  reachedZero :: bool
  ret :: REDO_CODE
  redoBufferList :: "nat \<Rightarrow> buffer"
  events :: "ReaderEvent list"

definition logEvent :: "ReaderEvent \<Rightarrow> Reader \<Rightarrow> Reader" where
  "logEvent e r = r\<lparr>events := events r @ [e]\<rparr>"

text \<open>The number of sleeps among the events of a reader.\<close>

definition sleeps :: "Reader \<Rightarrow> nat" where
  "sleeps r = length (filter (\<lambda>e. e = Sleep) (events r))"

text \<open>
  Lines 306-321 of \<open>checkBlockHeader\<close>: what a checksum mismatch logs.
\<close>

definition crcMismatch :: "bool \<Rightarrow> Reader \<Rightarrow> Reader" where
  "crcMismatch showHint r =
     (if showHint
      then
        let r1 = logEvent (LogWarning 60025) r
        in if \<not> hintDisplayed r1
           then (if \<not> configuredBlockSum r1 then logEvent LogHint r1 else r1)
                  \<lparr>hintDisplayed := True\<rparr>
           else r1
      else r)"

text \<open>
  Lines 280-295 of \<open>checkBlockHeader\<close>: the sequence of the block header against the
  sequence of the file. \<open>Some\<close> is the code returned at once, \<open>None\<close> goes on.
\<close>

definition checkSequence :: "Seq \<Rightarrow> Reader \<Rightarrow> REDO_CODE option \<times> Reader" where
  "checkSequence sequenceHeader r =
     (if sequence r = Seq_zero \<or> status r = UPDATE
      then (None, r\<lparr>sequence := sequenceHeader\<rparr>)
      else if group r = 0
      then (if sequence r \<noteq> sequenceHeader
            then (Some ERROR_SEQUENCE, logEvent (LogWarning 60024) r)
            else (None, r))
      else if sequence r > sequenceHeader then (Some EMPTY, r)
      else if sequence r < sequenceHeader then (Some OVERWRITTEN, r)
      else (None, r))"

text \<open>Lines 303-324 of \<open>checkBlockHeader\<close>: the checksum, unless the check is disabled.\<close>

definition checkSum :: "buffer \<Rightarrow> bool \<Rightarrow> Reader \<Rightarrow> REDO_CODE \<times> Reader" where
  "checkSum buf showHint r =
     (if \<not> disableChecksBlockSum (ctx r) \<and>
         read16 (bigEndian (ctx r)) buf 14 \<noteq>
           calcChSum (bigEndian (ctx r)) buf (unat (blockSize r))
      then (ERROR_CRC, crcMismatch showHint r)
      else (OK, r))"

text \<open>\<open>Reader::checkBlockHeader(buffer, blockNumber, showHint)\<close>.\<close>

definition checkBlockHeader :: "buffer \<Rightarrow> typeBlk \<Rightarrow> bool \<Rightarrow> Reader \<Rightarrow> REDO_CODE \<times> Reader" where
  "checkBlockHeader buf blockNumber showHint r =
     (if buf 0 = 0 \<and> buf 1 = 0 then (EMPTY, r)
      else if (blockSize r = 512 \<and> buf 1 \<noteq> 0x22) \<or>
              (blockSize r = 1024 \<and> buf 1 \<noteq> 0x22) \<or>
              (blockSize r = 4096 \<and> buf 1 \<noteq> 0x82)
      then (ERROR_BAD_DATA, logEvent (LogError 40001) r)
      else
        let blockNumberHeader = read32 (bigEndian (ctx r)) buf 4;
            sequenceHeader = read32 (bigEndian (ctx r)) buf 8
        in case checkSequence sequenceHeader r of
             (Some code, r1) \<Rightarrow> (code, r1)
           | (None, r1) \<Rightarrow>
               if blockNumberHeader \<noteq> blockNumber
               then (ERROR_BLOCK, logEvent (LogError 40002) r1)
               else checkSum buf showHint r1)"

section \<open>Reader: the header\<close>

text \<open>
  What \<open>Reader.cpp\<close> takes from outside: the constants of \<open>Ctx\<close> that are not among the
  sources, \<open>ctx->readScn\<close>, the virtual \<open>redoRead(buf, offset, size)\<close> (the number it
  returns and the bytes it puts into the buffer), the results of \<open>open\<close> and \<open>pwrite\<close> on
  the copy file, and the clock.
\<close>

record ReaderEnv =
  MIN_BLOCK_SIZE :: int
  MEMORY_CHUNK_SIZE :: "64 word"
  ZERO_BLK :: typeBlk
  REDO_VERSION_23_0 :: "32 word"
  readScn :: "bool \<Rightarrow> buffer \<Rightarrow> nat \<Rightarrow> Scn"
  redoRead :: "64 word \<Rightarrow> 32 word \<Rightarrow> int \<times> buffer"
  openCopy :: int
  pwriteCopy :: "int \<Rightarrow> int"
  getTimeUt :: "64 word"

definition PAGE_SIZE_MAX :: "32 word" where
  "PAGE_SIZE_MAX = 4096"

definition BAD_CDC_MAX_CNT :: "32 word" where
  "BAD_CDC_MAX_CNT = 20"

text \<open>
  Lines 349-381 of \<open>reloadHeaderRead\<close>: the read of the two header blocks, byte 0 and the
  byte-order marker. \<open>Inl\<close> is the early return with its code; \<open>Inr\<close> goes on with the
  number of bytes read. \<open>actualRead < Ctx::MIN_BLOCK_SIZE\<close> is compared as \<open>int\<close>.
\<close>

definition headerFetch :: "ReaderEnv \<Rightarrow> Reader \<Rightarrow> (REDO_CODE \<times> Reader) + (int \<times> Reader)" where
  "headerFetch env r =
     (if softShutdown (ctx r) then Inl (ERROR, r)
      else
        let (actualRead, bytes) =
              redoRead env 0 (if blockSize r > 0 then blockSize r * 2 else PAGE_SIZE_MAX * 2);
            r1 = r\<lparr>headerBuffer := bytes\<rparr>
        in if actualRead < MIN_BLOCK_SIZE env then Inl (ERROR_READ, logEvent (LogError 40003) r1)
           else
             let r2 = (if metricsSet (ctx r1) then logEvent (EmitBytesRead actualRead) r1 else r1);
                 h = headerBuffer r2
             in if h 0 \<noteq> 0 then Inl (ERROR_BAD_DATA, logEvent (LogError 40003) r2)
                else if h 28 = 0x7A \<and> h 29 = 0x7B \<and> h 30 = 0x7C \<and> h 31 = 0x7D
                then Inr (actualRead,
                          if \<not> bigEndian (ctx r2) then r2\<lparr>ctx := (ctx r2)\<lparr>bigEndian := True\<rparr>\<rparr>
                          else r2)
                else if h 28 \<noteq> 0x7D \<or> h 29 \<noteq> 0x7C \<or> h 30 \<noteq> 0x7B \<or> h 31 \<noteq> 0x7A \<or>
                        bigEndian (ctx r2)
                then Inl (ERROR_BAD_DATA, logEvent (LogError 40004) r2)
                else Inr (actualRead, r2))"

text \<open>The test of lines 386-388 on the size field and byte 1 of block 0.\<close>

definition blockSizeOK :: "32 word \<Rightarrow> 8 word \<Rightarrow> bool" where
  "blockSizeOK bs b1 =
     ((bs = 512 \<and> b1 = 0x22) \<or> (bs = 1024 \<and> b1 = 0x22) \<or> (bs = 4096 \<and> b1 = 0x82))"

text \<open>
  Lines 404-436: the copy of the header to the archive path. \<open>Inl\<close> is the code of the
  \<open>RuntimeException\<close>.
\<close>

definition headerCopy :: "ReaderEnv \<Rightarrow> int \<Rightarrow> Reader \<Rightarrow> nat + (REDO_CODE \<times> Reader)" where
  "headerCopy env actualRead0 r =
     (if redoCopyPathEmpty (ctx r) then Inr (OK, r)
      else
        let actualRead = (if (word_of_int actualRead0 :: 32 word) > blockSize r * 2
                          then sint (blockSize r * 2) else actualRead0);
            sequenceHeader =
              read32 (bigEndian (ctx r)) (headerBuffer r) (unat (blockSize r) + 8);
            r1 = (if fileCopySequence r \<noteq> sequenceHeader \<and> fileCopyDes r \<noteq> -1
                  then (logEvent CopyClose r)\<lparr>fileCopyDes := -1\<rparr> else r)
        in if fileCopyDes r1 = -1 \<and> openCopy env = -1 then Inl 10006
           else
             let r2 = (if fileCopyDes r1 = -1
                       then (logEvent (LogInfo 0) (logEvent (CopyOpen sequenceHeader) r1))
                              \<lparr>fileCopyDes := openCopy env, fileCopySequence := sequenceHeader\<rparr>
                       else r1);
                 r3 = logEvent (CopyWrite actualRead 0) r2
             in if pwriteCopy env actualRead \<noteq> actualRead
                then Inr (ERROR_WRITE, logEvent (LogError 10007) r3)
                else Inr (OK, r3))"

text \<open>\<open>Reader::reloadHeaderRead\<close>.\<close>

definition reloadHeaderRead :: "ReaderEnv \<Rightarrow> Reader \<Rightarrow> nat + (REDO_CODE \<times> Reader)" where
  "reloadHeaderRead env r =
     (case headerFetch env r of
        Inl early \<Rightarrow> Inr early
      | Inr (actualRead, r1) \<Rightarrow>
          let r2 = r1\<lparr>blockSize := read32 (bigEndian (ctx r1)) (headerBuffer r1) 20\<rparr>
          in if \<not> blockSizeOK (blockSize r2) (headerBuffer r2 1)
             then Inr (ERROR_BAD_DATA, (logEvent (LogError 40005) r2)\<lparr>blockSize := 0\<rparr>)
             else if actualRead < sint (blockSize r2 * 2)
             then Inr (ERROR_READ, logEvent (LogError 40003) r2)
             else headerCopy env actualRead r2)"

text \<open>The allow-list of lines 459-465 on the compatibility version.\<close>

definition versionSupported :: "32 word \<Rightarrow> bool" where
  "versionSupported v =
     ((v \<ge> 0x0B200000 \<and> v \<le> 0x0B200400) \<or> (v \<ge> 0x0C100000 \<and> v \<le> 0x0C100200) \<or>
      (v \<ge> 0x0C200000 \<and> v \<le> 0x0C200100) \<or> (v \<ge> 0x12000000 \<and> v \<le> 0x120E0000) \<or>
      (v \<ge> 0x13000000 \<and> v \<le> 0x13120000) \<or> (v \<ge> 0x15000000 \<and> v \<le> 0x15080000) \<or>
      (v \<ge> 0x17000000 \<and> v \<le> 0x17030000))"

text \<open>Lines 473-485: the fields of block 1 and the file size taken from the header.\<close>

definition headerFields :: "ReaderEnv \<Rightarrow> Reader \<Rightarrow> Reader" where
  "headerFields env r =
     (let be = bigEndian (ctx r); h = headerBuffer r; bs = unat (blockSize r);
          r1 = r\<lparr>r_activation := read32 be h (bs + 52),
                 numBlocksHeader := read32 be h (bs + 156),
                 r_resetlogs := read32 be h (bs + 160),
                 firstScnHeader := readScn env be h (bs + 180),
                 firstTimeHeader := read32 be h (bs + 188),
                 nextScnHeader := readScn env be h (bs + 192),
                 nextTime := read32 be h (bs + 200)\<rparr>
      in if numBlocksHeader r1 \<noteq> ZERO_BLK env \<and>
            fileSize r1 > ucast (numBlocksHeader r1) * ucast (blockSize r1) \<and> group r1 = 0
         then logEvent (LogInfo 0)
                (r1\<lparr>fileSize := ucast (numBlocksHeader r1) * ucast (blockSize r1)\<rparr>)
         else r1)"

text \<open>
  Lines 487-515: the first header fixes \<open>ctx->version\<close>; the version string is only
  logged and left out.
\<close>

definition versionInit :: "ReaderEnv \<Rightarrow> Reader \<Rightarrow> Reader" where
  "versionInit env r =
     (if version (ctx r) = 0
      then logEvent (LogInfo 0)
             (r\<lparr>ctx := (ctx r)\<lparr>version := compatVsn r,
                      columnLimit23 := (if compatVsn r \<ge> REDO_VERSION_23_0 env then True
                                        else columnLimit23 (ctx r))\<rparr>\<rparr>)
      else r)"

text \<open>Block 1 of the header buffer: \<open>headerBuffer + blockSize\<close>.\<close>

definition headerBlock1 :: "Reader \<Rightarrow> buffer" where
  "headerBlock1 r = (\<lambda>i. headerBuffer r (unat (blockSize r) + i))"

text \<open>
  The loop of lines 531-543, entered with \<open>badBlockCrcCount\<close> and the last result of
  \<open>checkBlockHeader\<close>. The \<open>return ERROR_BAD_DATA\<close> inside the loop leaves
  \<open>reloadHeader\<close> with that code, as the test after the loop does with any code but
  \<open>OK\<close>. The counter is an \<open>uint\<close> and the test on it an equality.
\<close>

function crcRetry :: "32 word \<Rightarrow> REDO_CODE \<Rightarrow> Reader \<Rightarrow> REDO_CODE \<times> Reader" where
  "crcRetry badBlockCrcCount retReload r =
     (if retReload = ERROR_CRC
      then
        if badBlockCrcCount + 1 = BAD_CDC_MAX_CNT then (ERROR_BAD_DATA, r)
        else
          let r1 = logEvent Sleep r
          in crcRetry (badBlockCrcCount + 1)
               (fst (checkBlockHeader (headerBlock1 r1) 1 False r1))
               (snd (checkBlockHeader (headerBlock1 r1) 1 False r1))
      else (retReload, r))"
  by pat_completeness auto
termination
proof (relation "measure (\<lambda>(c, ret, r). unat (BAD_CDC_MAX_CNT - 1 - c))")
  show "wf (measure (\<lambda>(c, ret, r). unat (BAD_CDC_MAX_CNT - 1 - c)))"
    by simp
next
  fix badBlockCrcCount :: "32 word" and retReload :: REDO_CODE and r r1 :: Reader
  assume ne: "badBlockCrcCount + 1 \<noteq> BAD_CDC_MAX_CNT"
  define x where "x = BAD_CDC_MAX_CNT - 1 - badBlockCrcCount"
  from ne have nz: "x \<noteq> 0"
    unfolding x_def by (metis diff_add_cancel right_minus_eq)
  have eq: "BAD_CDC_MAX_CNT - 1 - (badBlockCrcCount + 1) = x - 1"
    unfolding x_def by simp
  have "unat (x - 1) = unat x - 1"
    using nz by (rule unat_minus_one)
  moreover have "0 < unat x"
    using nz by (simp add: unat_gt_0)
  ultimately have "unat (x - 1) < unat x" by linarith
  then have "unat (BAD_CDC_MAX_CNT - 1 - (badBlockCrcCount + 1))
      < unat (BAD_CDC_MAX_CNT - 1 - badBlockCrcCount)"
    unfolding eq x_def .
  then show "((badBlockCrcCount + 1, fst (checkBlockHeader (headerBlock1 r1) 1 False r1),
               snd (checkBlockHeader (headerBlock1 r1) 1 False r1)),
              badBlockCrcCount, retReload, r)
             \<in> measure (\<lambda>(c, ret, r). unat (BAD_CDC_MAX_CNT - 1 - c))"
    by simp
qed

declare crcRetry.simps [simp del]

text \<open>Lines 548-571: the SCN range of the header against the one already known.\<close>

definition scnUpdate :: "Reader \<Rightarrow> REDO_CODE \<times> Reader" where
  "scnUpdate r =
     (if \<not> (firstScn r = Scn_none \<or> status r = UPDATE) \<and> firstScnHeader r \<noteq> firstScn r
      then (ERROR_BAD_DATA, logEvent (LogError 40008) r)
      else
        let r1 = (if firstScn r = Scn_none \<or> status r = UPDATE
                  then r\<lparr>firstScn := firstScnHeader r, nextScn := nextScnHeader r\<rparr>
                  else r)
        in if nextScn r1 = Scn_none \<and> nextScnHeader r1 \<noteq> Scn_none
           then (OK, r1\<lparr>nextScn := nextScnHeader r1\<rparr>)
           else if nextScn r1 \<noteq> Scn_none \<and> nextScnHeader r1 \<noteq> Scn_none \<and>
                   nextScn r1 \<noteq> nextScnHeader r1
           then (ERROR_BAD_DATA, logEvent (LogError 40009) r1)
           else (OK, r1))"

text \<open>
  Lines 452-546 of \<open>reloadHeader\<close>, after the header has been read: the version, the
  fields and the check of block 1 with its retries.
\<close>

definition headerCheck :: "ReaderEnv \<Rightarrow> Reader \<Rightarrow> REDO_CODE \<times> Reader" where
  "headerCheck env r1 =
     (let r2 = r1\<lparr>compatVsn := read32 (bigEndian (ctx r1)) (headerBuffer r1)
                                    (unat (blockSize r1) + 20)\<rparr>
      in if compatVsn r2 = 0 then (EMPTY, r2)
         else if \<not> versionSupported (compatVsn r2)
         then (ERROR_BAD_DATA, logEvent (LogError 40006) r2)
         else
           let r3 = versionInit env (headerFields env r2)
           in if compatVsn r3 \<noteq> version (ctx r3)
              then (ERROR_BAD_DATA, logEvent (LogError 40007) r3)
              else crcRetry 0 (fst (checkBlockHeader (headerBlock1 r3) 1 False r3))
                     (snd (checkBlockHeader (headerBlock1 r3) 1 False r3)))"

text \<open>\<open>Reader::reloadHeader\<close>; \<open>Inl\<close> is the code of a \<open>RuntimeException\<close>.\<close>

definition reloadHeader :: "ReaderEnv \<Rightarrow> Reader \<Rightarrow> nat + (REDO_CODE \<times> Reader)" where
  "reloadHeader env r =
     (case reloadHeaderRead env r of
        Inl ex \<Rightarrow> Inl ex
      | Inr (retReload, r1) \<Rightarrow>
          if retReload \<noteq> OK then Inr (retReload, r1)
          else
            let (retCheck, r2) = headerCheck env r1
            in if retCheck \<noteq> OK then Inr (retCheck, r2) else Inr (scnUpdate r2))"

section \<open>Reader: the first read of a run of blocks\<close>

text \<open>
  \<open>Reader::readSize(prevRead)\<close>: \<open>prevRead *= 2\<close> is an \<open>uint\<close> product, the minimum is
  taken in \<open>uint64_t\<close> and assigned back to the \<open>uint\<close>.
\<close>

definition readSize :: "ReaderEnv \<Rightarrow> 32 word \<Rightarrow> Reader \<Rightarrow> 32 word" where
  "readSize env prevRead r =
     (if prevRead < blockSize r then blockSize r
      else ucast (min (ucast (prevRead * 2) :: 64 word) (MEMORY_CHUNK_SIZE env)))"

text \<open>
  Lines 581-641 of \<open>read1\<close>: the size to read, the read into the chunk
  \<open>redoBufferList[redoBufferNum]\<close> at \<open>redoBufferPos\<close> and the copy to the archive file.
  \<open>Inl\<close> is the state in which \<open>read1\<close> returns false; \<open>Inr\<close> carries \<open>actualRead\<close>,
  \<open>redoBufferNum\<close> and \<open>redoBufferPos\<close>. The remainder and the quotient by
  \<open>MEMORY_CHUNK_SIZE\<close> and \<open>memoryChunksReadBufferMax\<close> are those of the words; the source
  never has either divisor 0.
\<close>

definition read1Fetch :: "ReaderEnv \<Rightarrow> Reader \<Rightarrow> Reader + (int \<times> nat \<times> nat \<times> Reader)" where
  "read1Fetch env r =
     (let toRead0 = readSize env (lastRead r) r;
          toRead1 = (if bufferScan r + ucast toRead0 > fileSize r
                     then ucast (fileSize r - bufferScan r) else toRead0);
          redoBufferPos = bufferScan r mod MEMORY_CHUNK_SIZE env;
          redoBufferNum = (bufferScan r div MEMORY_CHUNK_SIZE env) mod
                            memoryChunksReadBufferMax (ctx r);
          toRead = (if redoBufferPos + ucast toRead1 > MEMORY_CHUNK_SIZE env
                    then ucast (MEMORY_CHUNK_SIZE env - redoBufferPos) else toRead1)
      in if toRead = 0 then Inl ((logEvent (LogError 40010) r)\<lparr>ret := ERROR\<rparr>)
         else
           let r1 = logEvent (BufferAllocate (unat redoBufferNum)) r;
               (actualRead, bytes) = redoRead env (bufferScan r1) toRead;
               num = unat redoBufferNum;
               pos = unat redoBufferPos;
               r2 = r1\<lparr>redoBufferList := (redoBufferList r1)
                      (num := (\<lambda>i. if pos \<le> i \<and> int i < int pos + actualRead
                                    then bytes (i - pos) else redoBufferList r1 num i))\<rparr>
           in if actualRead < 0 then Inl ((logEvent (LogError 40003) r2)\<lparr>ret := ERROR_READ\<rparr>)
              else
                let r3 = (if metricsSet (ctx r2) then logEvent (EmitBytesRead actualRead) r2
                          else r2)
                in if actualRead > 0 \<and> fileCopyDes r3 \<noteq> -1 \<and>
                      (redoVerifyDelayUs (ctx r3) = 0 \<or> group r3 = 0)
                   then
                     let r4 = logEvent (CopyWrite actualRead (bufferEnd r3)) r3
                     in if pwriteCopy env actualRead \<noteq> actualRead
                        then Inl ((logEvent (LogError 10007) r4)\<lparr>ret := ERROR_WRITE\<rparr>)
                        else Inr (actualRead, num, pos, r4)
                   else Inr (actualRead, num, pos, r3))"

text \<open>
  The loop of lines 650-660 over the blocks read: \<open>checkBlockHeader\<close> on each until one is
  not \<open>OK\<close>. The result is \<open>(currentRet, goodBlocks, reader)\<close>; \<open>goodBlocks\<close> equals
  \<open>numBlock\<close> throughout. \<open>chunk\<close> is the memory at
  \<open>redoBufferList[redoBufferNum] + redoBufferPos\<close>; the offset \<open>numBlock * blockSize\<close> is
  an \<open>uint\<close> product.
\<close>

function checkBlocks ::
    "buffer \<Rightarrow> typeBlk \<Rightarrow> bool \<Rightarrow> nat \<Rightarrow> nat \<Rightarrow> Reader \<Rightarrow> REDO_CODE \<times> nat \<times> Reader" where
  "checkBlocks chunk bufferScanBlock showHint maxNumBlock numBlock r =
     (if numBlock < maxNumBlock
      then
        let blk = (\<lambda>i. chunk (unat (of_nat numBlock * blockSize r) + i));
            res = checkBlockHeader blk (bufferScanBlock + of_nat numBlock) showHint r
        in if fst res \<noteq> OK then (fst res, numBlock, snd res)
           else checkBlocks chunk bufferScanBlock showHint maxNumBlock (Suc numBlock) (snd res)
      else (OK, numBlock, r))"
  by pat_completeness auto
termination
  by (relation "measure (\<lambda>(c, b, h, m, n, r). m - n)") auto

declare checkBlocks.simps [simp del]

text \<open>
  \<open>*readTimeP = lastReadTime\<close>: the eight bytes of a \<open>time_t\<close> stored at an offset, in
  the byte order of the host.
\<close>

definition store64 :: "buffer \<Rightarrow> nat \<Rightarrow> 64 word \<Rightarrow> buffer" where
  "store64 buf off v =
     (\<lambda>i. if off \<le> i \<and> i < off + 8 then ucast (drop_bit (8 * (i - off)) v) else buf i)"

text \<open>Lines 706-709: the read time stamped on each good block.\<close>

fun stampBlocks :: "nat \<Rightarrow> 32 word \<Rightarrow> 64 word \<Rightarrow> nat \<Rightarrow> buffer \<Rightarrow> buffer" where
  "stampBlocks pos bs t 0 buf = buf"
| "stampBlocks pos bs t (Suc n) buf =
     store64 (stampBlocks pos bs t n buf) (pos + unat (of_nat n * bs)) t"

text \<open>
  Lines 662-672 and, with the same statements, 724-733: the end of a file of group 0.
\<close>

definition endOfFile :: "Reader \<Rightarrow> Reader" where
  "endOfFile r =
     (if nextScnHeader r \<noteq> Scn_none
      then r\<lparr>ret := FINISHED, nextScn := nextScnHeader r\<rparr>
      else (logEvent (LogWarning 60023) r)\<lparr>ret := STOPPED\<rparr>)"

text \<open>Lines 697-721: the positions after the good blocks.\<close>

definition publishBlocks :: "ReaderEnv \<Rightarrow> nat \<Rightarrow> nat \<Rightarrow> nat \<Rightarrow> Reader \<Rightarrow> Reader" where
  "publishBlocks env goodBlocks num pos r =
     (let bytes = (of_nat goodBlocks * blockSize r :: 32 word);
          r1 = r\<lparr>lastRead := bytes, lastReadTime := getTimeUt env\<rparr>
      in if goodBlocks > 0
         then
           if redoVerifyDelayUs (ctx r1) > 0 \<and> group r1 \<noteq> 0
           then r1\<lparr>bufferScan := bufferScan r1 + ucast bytes,
                   redoBufferList := (redoBufferList r1)
                     (num := stampBlocks pos (blockSize r1) (lastReadTime r1) goodBlocks
                               (redoBufferList r1 num))\<rparr>
           else r1\<lparr>bufferEnd := bufferEnd r1 + ucast bytes,
                   bufferScan := bufferEnd r1 + ucast bytes\<rparr>
         else r1)"

text \<open>
  Lines 662-735 of \<open>read1\<close>, entered with the result of the loop over the blocks.
  \<open>Inl\<close> is the code of a \<open>RuntimeException\<close> thrown by \<open>reloadHeader\<close>.
\<close>

definition read1Decide ::
    "ReaderEnv \<Rightarrow> REDO_CODE \<Rightarrow> nat \<Rightarrow> nat \<Rightarrow> nat \<Rightarrow> Reader \<Rightarrow> nat + (bool \<times> Reader)" where
  "read1Decide env currentRet0 goodBlocks num pos r =
     (if goodBlocks = 0 \<and> group r = 0 then Inr (False, endOfFile r)
      else
        let currentRet = (if currentRet0 = ERROR_CRC \<and> redoVerifyDelayUs (ctx r) > 0 \<and>
                             group r \<noteq> 0
                          then EMPTY else currentRet0)
        in if goodBlocks = 0 \<and> currentRet \<noteq> OK \<and> currentRet \<noteq> EMPTY
           then Inr (False, r\<lparr>ret := currentRet\<rparr>)
           else
             case (if goodBlocks = 0 \<and> currentRet = EMPTY
                   then (case reloadHeader env r of
                           Inl ex \<Rightarrow> Inl ex
                         | Inr (c, r') \<Rightarrow>
                             if c \<noteq> OK then Inr (Inl (r'\<lparr>ret := c\<rparr>))
                             else Inr (Inr (c, r'\<lparr>reachedZero := True\<rparr>)))
                   else Inr (Inr (currentRet, r\<lparr>readBlocks := True, reachedZero := False\<rparr>))) of
               Inl ex \<Rightarrow> Inl ex
             | Inr (Inl failed) \<Rightarrow> Inr (False, failed)
             | Inr (Inr (currentRet', r1)) \<Rightarrow>
                 let r2 = publishBlocks env goodBlocks num pos r1
                 in if currentRet' = ERROR_SEQUENCE \<and> group r2 = 0
                    then Inr (False, endOfFile r2)
                    else Inr (True, r2))"

text \<open>\<open>Reader::read1\<close>. \<open>actualRead / blockSize\<close> divides in \<open>uint\<close>.\<close>

definition read1 :: "ReaderEnv \<Rightarrow> Reader \<Rightarrow> nat + (bool \<times> Reader)" where
  "read1 env r =
     (case read1Fetch env r of
        Inl failed \<Rightarrow> Inr (False, failed)
      | Inr (actualRead, num, pos, r1) \<Rightarrow>
          let maxNumBlock = (word_of_int actualRead :: 32 word) div blockSize r1;
              bufferScanBlock = (ucast (bufferScan r1 div ucast (blockSize r1)) :: 32 word);
              chunk = (\<lambda>i. redoBufferList r1 num (pos + i));
              showHint = (redoVerifyDelayUs (ctx r1) = 0 \<or> group r1 = 0);
              (currentRet, goodBlocks, r2) =
                 checkBlocks chunk bufferScanBlock showHint (unat maxNumBlock) 0 r1
          in read1Decide env currentRet goodBlocks num pos r2)"

section \<open>Reader: concrete inputs\<close>

text \<open>
  A context with the checks on and little-endian byte order; a reader of group 0 on a file
  of sequence 10 with 512-byte blocks, positioned at block 2; a data block with block
  number 5 and a given sequence byte; header blocks 0 with the size fields 512, 2048,
  1024 and 4096; a header of two 512-byte blocks whose block 1 has block number 1,
  sequence 10, version \<open>0x13000000\<close> and a stored checksum 0 that does not match; and an
  environment whose \<open>redoRead\<close> delivers the bytes asked for from a given
  buffer.
\<close>

definition ctx0 :: Ctx where
  "ctx0 = \<lparr>softShutdown = False, bigEndian = False, version = 0, columnLimit23 = False,
     disableChecksBlockSum = False, redoCopyPathEmpty = True, redoVerifyDelayUs = 0,
     metricsSet = False, memoryChunksReadBufferMax = 4\<rparr>"

definition reader0 :: Reader where
  "reader0 = \<lparr>ctx = ctx0, group = 0, sequence = 10, status = READ, blockSize = 512,
     hintDisplayed = False, configuredBlockSum = True, fileSize = 1048576, fileCopyDes = -1,
     fileCopySequence = 0, headerBuffer = (\<lambda>i. 0), compatVsn = 0, r_activation = 0,
     numBlocksHeader = 0, r_resetlogs = 0, firstScnHeader = Scn_none, firstTimeHeader = 0,
     nextScnHeader = Scn_none, nextTime = 0, firstScn = Scn_none, nextScn = Scn_none,
     bufferScan = 1024, bufferEnd = 1024, lastRead = 512, lastReadTime = 0,
     readBlocks = False, reachedZero = False, ret = OK, redoBufferList = (\<lambda>n i. 0),
     events = []\<rparr>"

definition blockSeq :: "8 word \<Rightarrow> buffer" where
  "blockSeq s = (\<lambda>i. 0)(0 := 1, 1 := 0x22, 4 := 5, 8 := s)"

definition hdr512 :: buffer where
  "hdr512 = (\<lambda>i. 0)(1 := 0x22, 21 := 2, 28 := 0x7D, 29 := 0x7C, 30 := 0x7B, 31 := 0x7A)"

definition hdr2048 :: buffer where
  "hdr2048 = (\<lambda>i. 0)(1 := 0x22, 21 := 8, 28 := 0x7D, 29 := 0x7C, 30 := 0x7B, 31 := 0x7A)"

definition hdr1024 :: buffer where
  "hdr1024 = (\<lambda>i. 0)(1 := 0x22, 21 := 4, 28 := 0x7D, 29 := 0x7C, 30 := 0x7B, 31 := 0x7A)"

definition hdr4096 :: buffer where
  "hdr4096 = (\<lambda>i. 0)(1 := 0x82, 21 := 16, 28 := 0x7D, 29 := 0x7C, 30 := 0x7B, 31 := 0x7A)"


definition env0r :: "buffer \<Rightarrow> ReaderEnv" where
  "env0r bytes = \<lparr>MIN_BLOCK_SIZE = 512, MEMORY_CHUNK_SIZE = 1048576, ZERO_BLK = 0xFFFFFFFF,
     REDO_VERSION_23_0 = 0x17000000, readScn = (\<lambda>be buf off. Scn_none),
     redoRead = (\<lambda>off sz. (int (unat sz), bytes)), openCopy = 3, pwriteCopy = (\<lambda>n. n),
     getTimeUt = 0\<rparr>"

section \<open>Results: MemoryManager\<close>

lemma scanSwapChunks_result:
  "scanSwapChunks fl scs out = out \<or>
   (\<exists>sc. (fst (scanSwapChunks fl scs out), sc) \<in> set scs \<and>
         snd (scanSwapChunks fl scs out) = swappedMax sc + 1 \<and>
         swappedMax sc + 1 < int (length (chunks sc)) - 1 \<and>
         1 < length (chunks sc) \<and> \<not> release sc \<and> fst (scanSwapChunks fl scs out) \<noteq> fl)"
proof (induction scs)
  case Nil
  then show ?case by simp
next
  case (Cons p scs)
  obtain x sc where p: "p = (x, sc)" by (cases p)
  show ?case
  proof (cases "fl = x \<or> release sc \<or> length (chunks sc) \<le> 1")
    case True
    then have "scanSwapChunks fl (p # scs) out = scanSwapChunks fl scs out"
      using p by simp
    with Cons.IH show ?thesis by auto
  next
    case skip: False
    show ?thesis
    proof (cases "swappedMax sc < int (length (chunks sc)) - 2")
      case True
      with skip p have "scanSwapChunks fl (p # scs) out = (x, swappedMax sc + 1)"
        by simp
      with skip True p show ?thesis by auto
    next
      case False
      with skip p have "scanSwapChunks fl (p # scs) out = scanSwapChunks fl scs out"
        by simp
      with Cons.IH show ?thesis by auto
    qed
  qed
qed

text \<open>
  C4, as stated: every candidate has an index strictly greater than 0. It fails for a victim
  of two chunks with nothing swapped yet (\<open>swappedMax = -1\<close>): the candidate is index 0,
  the first chunk of the chain.
\<close>

theorem getChunkToSwap_first_chunk_counterexample:
  "getChunkToSwap False 0
     [(7, \<lparr>chunks = [4096, 8192], swappedMin = -1, swappedMax = -1, release = False\<rparr>)]
     (0, -1) = (7, 0)"
  by (simp add: getChunkToSwap_def)

text \<open>
  C4, amended: a candidate returned by \<open>getChunkToSwap\<close> (the index left \<open>-1\<close> on entry
  and different from \<open>-1\<close> on return) belongs to an entry of \<open>swapChunks\<close> that is not
  released, is not the flush XID and has at least two chunks; its index is
  \<open>swappedMax + 1\<close>, which is at least 0 and strictly less than the chunk count minus 1.
  The last chunk is never chosen; the first one is chosen when nothing is swapped yet.
\<close>

theorem getChunkToSwap_candidate_range:
  assumes "getChunkToSwap nts fl scs (x0, -1) = (xid, idx)"
    and "idx \<noteq> -1"
    and "\<forall>p \<in> set scs. -1 \<le> swappedMax (snd p)"
  shows "\<exists>sc. (xid, sc) \<in> set scs \<and> idx = swappedMax sc + 1 \<and> 0 \<le> idx \<and>
              idx < int (length (chunks sc)) - 1 \<and> 1 < length (chunks sc) \<and>
              \<not> release sc \<and> xid \<noteq> fl"
proof -
  from assms(1,2) have nts: "\<not> nts"
    by (auto simp: getChunkToSwap_def split: if_splits)
  with assms(1) have scan: "scanSwapChunks fl scs (x0, -1) = (xid, idx)"
    by (simp add: getChunkToSwap_def)
  with assms(2) have "scanSwapChunks fl scs (x0, -1) \<noteq> (x0, -1)" by auto
  with scanSwapChunks_result [of fl scs "(x0, -1)"] scan
  obtain sc where sc: "(xid, sc) \<in> set scs" "idx = swappedMax sc + 1"
      "swappedMax sc + 1 < int (length (chunks sc)) - 1" "1 < length (chunks sc)"
      "\<not> release sc" "xid \<noteq> fl"
    by auto
  from sc(1) assms(3) have "-1 \<le> swappedMax sc" by force
  with sc show ?thesis by auto
qed

theorem getChunkToSwap_candidate_range_witness:
  "\<exists>sc. (7, sc) \<in> set [(7, \<lparr>chunks = [4096, 8192, 12288], swappedMin = 0, swappedMax = 0,
                              release = False\<rparr>)] \<and>
        (1::int) = swappedMax sc + 1 \<and> (0::int) \<le> 1 \<and> 1 < int (length (chunks sc)) - 1 \<and>
        1 < length (chunks sc) \<and> \<not> release sc \<and> (7::Xid) \<noteq> 0"
proof -
  let ?scs = "[(7::Xid, \<lparr>chunks = [4096, 8192, 12288], swappedMin = 0, swappedMax = 0,
                         release = False\<rparr>)]"
  have run: "getChunkToSwap False 0 ?scs (0, -1) = (7, 1)"
    by (simp add: getChunkToSwap_def)
  have idx: "(1::int) \<noteq> -1" by simp
  have rng: "\<forall>p \<in> set ?scs. -1 \<le> swappedMax (snd p)" by simp
  show ?thesis
    using getChunkToSwap_candidate_range [OF run idx rng] by simp
qed

section \<open>Results: Writer\<close>

lemma Scn_none_greatest: "\<not> Scn_none < (x::Scn)"
proof -
  have "Scn_none = (-1 :: 64 word)" by (simp add: Scn_none_def)
  moreover have "x \<le> (-1 :: 64 word)" by (rule word_n1_ge)
  ultimately show ?thesis by (simp add: not_less)
qed

lemma Scn_le_none: "(x::Scn) \<le> Scn_none"
  using Scn_none_greatest [of x] by simp

lemma confirmMessage_fields:
  "confirmedScn (confirmMessage now msg w) = (if msgNewer msg w then lwnScn msg else confirmedScn w)"
  "confirmedIdx (confirmMessage now msg w) = (if msgNewer msg w then lwnIdx msg else confirmedIdx w)"
  "checkpointScn (confirmMessage now msg w) = (if msgNewer msg w then lwnScn msg else checkpointScn w)"
  "checkpointIdx (confirmMessage now msg w) = (if msgNewer msg w then lwnIdx msg else checkpointIdx w)"
  "stateWrites (confirmMessage now msg w) = stateWrites w"
  by (simp_all add: confirmMessage_def Let_def)

lemma writeCheckpoint_confirmed:
  "confirmedScn (writeCheckpoint i now ok force w) = confirmedScn w"
  "confirmedIdx (writeCheckpoint i now ok force w) = confirmedIdx w"
  by (simp_all add: writeCheckpoint_def Let_def)

lemma writeCheckpoint_checkpointScn:
  "checkpointScn (writeCheckpoint i now ok force w) = checkpointScn w \<or>
   checkpointScn (writeCheckpoint i now ok force w) = confirmedScn w"
  by (simp add: writeCheckpoint_def Let_def)

text \<open>
  Once \<open>confirmMessage\<close> has accepted a message, the checkpoint position equals the confirmed
  position, and \<open>writeCheckpoint\<close> returns at its first test.
\<close>

lemma confirmMessage_hides_confirmation:
  "msgNewer msg w \<Longrightarrow>
   stateWrites (writeCheckpoint i now' ok force (confirmMessage now msg w)) = stateWrites w"
  by (simp add: writeCheckpoint_def confirmMessage_def Let_def)

text \<open>
  From the initial value \<open>Scn::none()\<close> the confirmed SCN never changes: no SCN is greater
  than the all-ones value, so \<open>confirmMessage\<close> can only accept a message whose SCN is
  \<open>Scn::none()\<close> itself, and \<open>writeCheckpoint\<close> then never calls \<open>stateWrite\<close>.
\<close>

lemma confirmMessage_keeps_none:
  "confirmedScn w = Scn_none \<Longrightarrow> confirmedScn (confirmMessage now msg w) = Scn_none"
  using Scn_none_greatest by (auto simp: confirmMessage_fields msgNewer_def)

lemma writeCheckpoint_none_no_write:
  "confirmedScn w = Scn_none \<Longrightarrow> writeCheckpoint i now ok force w = w\<lparr>redo := False\<rparr>"
  by (simp add: writeCheckpoint_def Let_def)

text \<open>
  C2. The claim: when the run loop is left with \<open>checkpointScn\<close> set, \<open>writeCheckpoint(true)\<close>
  persists a state document with the confirmed SCN whenever a message has been confirmed
  since the last persisted checkpoint. The code at two inputs. First the start of a writer
  that finds a stored checkpoint at SCN 100 and then confirms the message (200, 1): the
  confirmed SCN is still \<open>Scn::none()\<close> and leaving the loop makes no call of
  \<open>stateWrite\<close>. Second a writer whose persisted and confirmed position is (100, 0) and
  that confirms (200, 1): the confirmed position becomes (200, 1), and leaving the loop
  again makes no call of \<open>stateWrite\<close>.
\<close>

theorem writer_final_checkpoint_not_written:
  "map_sum id
     (\<lambda>w. (confirmedScn (confirmMessage 40 \<lparr>lwnScn = 200, lwnIdx = 1\<rparr> w),
           stateWrites (mainLoop_exit 10 50 True (confirmMessage 40 \<lparr>lwnScn = 200, lwnIdx = 1\<rparr> w))))
     (readCheckpoint (StateDoc ''DB'' 1 1 100 (Some 0)) (Writer_new ''DB'' 0 metadata0))
   = Inr (Scn_none, [])
   \<and> (let w = (Writer_new ''DB'' 0 metadata0)\<lparr>checkpointScn := 100, checkpointIdx := 0,
                  confirmedScn := 100, confirmedIdx := 0\<rparr>;
           w' = confirmMessage 40 \<lparr>lwnScn = 200, lwnIdx = 1\<rparr> w
       in confirmedScn w' = 200 \<and> confirmedIdx w' = 1 \<and>
          stateWrites (mainLoop_exit 10 50 True w') = [])"
  by (simp add: readCheckpoint_def Writer_new_def confirmMessage_def msgNewer_def
        mainLoop_exit_def writeCheckpoint_def Scn_none_def Let_def)

lemma confirmMessage_invariant:
  assumes "checkpointScn w \<le> confirmedScn w"
  shows "let w' = confirmMessage now msg w
          in checkpointScn w' \<le> confirmedScn w' \<and> confirmedScn w \<le> confirmedScn w' \<and>
             checkpointScn w \<le> checkpointScn w' \<and>
             (confirmedScn w', confirmedIdx w', checkpointScn w', checkpointIdx w') =
               (if msgNewer msg w then (lwnScn msg, lwnIdx msg, lwnScn msg, lwnIdx msg)
                else (confirmedScn w, confirmedIdx w, checkpointScn w, checkpointIdx w))"
  using assms by (auto simp: Let_def confirmMessage_fields msgNewer_def)

lemma writeCheckpoint_invariant:
  assumes "checkpointScn w \<le> confirmedScn w"
  shows "let w' = writeCheckpoint i now ok force w
          in checkpointScn w' \<le> confirmedScn w' \<and> confirmedScn w' = confirmedScn w \<and>
             checkpointScn w \<le> checkpointScn w'"
  using assms writeCheckpoint_checkpointScn [of i now ok force w]
  by (auto simp: Let_def writeCheckpoint_confirmed)

lemma writerCall_invariant:
  assumes "checkpointScn w \<le> confirmedScn w"
  shows "checkpointScn (writerCall c w) \<le> confirmedScn (writerCall c w) \<and>
         confirmedScn w \<le> confirmedScn (writerCall c w) \<and>
         checkpointScn w \<le> checkpointScn (writerCall c w)"
proof (cases c)
  case (CallConfirm now msg)
  with confirmMessage_invariant [OF assms, of now msg] show ?thesis
    by (auto simp: Let_def)
next
  case (CallCheckpoint i now ok force)
  with writeCheckpoint_invariant [OF assms, of i now ok force] show ?thesis
    by (auto simp: Let_def)
qed

lemma writerCalls_invariant:
  "checkpointScn w \<le> confirmedScn w \<Longrightarrow>
   checkpointScn (writerCalls cs w) \<le> confirmedScn (writerCalls cs w)"
proof (induction cs rule: rev_induct)
  case Nil
  then show ?case by (simp add: writerCalls_def)
next
  case (snoc c cs)
  from writerCall_invariant [OF snoc.IH [OF snoc.prems], of c] show ?case
    by (simp add: writerCalls_def)
qed

lemma readCheckpoint_fields:
  "case readCheckpoint stored w of
     Inl e \<Rightarrow> True
   | Inr w' \<Rightarrow> confirmedScn w' = confirmedScn w \<and> confirmedIdx w' = confirmedIdx w \<and>
       checkpointScn w' = (case stored of StateDoc d rl act s i \<Rightarrow> s | _ \<Rightarrow> checkpointScn w) \<and>
       (confirmedScn w = Scn_none \<longrightarrow> checkpointScn w' \<le> confirmedScn w')"
  by (cases stored) (auto simp: readCheckpoint_def Let_def Scn_le_none)

lemma run_invariant:
  "case readCheckpoint stored (Writer_new db t md) of
     Inl e \<Rightarrow> True
   | Inr w0 \<Rightarrow>
       checkpointScn (Writer_new db t md) = Scn_none \<and>
       confirmedScn (Writer_new db t md) = Scn_none \<and>
       checkpointScn w0 \<le> confirmedScn w0 \<and>
       (\<forall>cs c. checkpointScn (writerCall c (writerCalls cs w0))
                  \<le> confirmedScn (writerCall c (writerCalls cs w0)) \<and>
                confirmedScn (writerCalls cs w0) \<le> confirmedScn (writerCall c (writerCalls cs w0)) \<and>
                checkpointScn (writerCalls cs w0) \<le> checkpointScn (writerCall c (writerCalls cs w0)))"
proof (cases "readCheckpoint stored (Writer_new db t md)")
  case (Inl e)
  then show ?thesis by simp
next
  case (Inr w0)
  have n: "checkpointScn (Writer_new db t md) = Scn_none" "confirmedScn (Writer_new db t md) = Scn_none"
    by (simp_all add: Writer_new_def)
  from readCheckpoint_fields [where stored = stored and w = "Writer_new db t md"] Inr n
  have i0: "checkpointScn w0 \<le> confirmedScn w0" by (simp add: Scn_le_none)
  have "checkpointScn (writerCall c (writerCalls cs w0))
                  \<le> confirmedScn (writerCall c (writerCalls cs w0)) \<and>
                confirmedScn (writerCalls cs w0) \<le> confirmedScn (writerCall c (writerCalls cs w0)) \<and>
                checkpointScn (writerCalls cs w0) \<le> checkpointScn (writerCall c (writerCalls cs w0))"
    for cs c
    by (rule writerCall_invariant [OF writerCalls_invariant [OF i0]])
  with n i0 Inr show ?thesis by simp
qed

text \<open>
  C9. Scn values compare as unsigned 64-bit numbers. From any state with
  \<open>checkpointScn \<le> confirmedScn\<close>, \<open>confirmMessage\<close> and \<open>writeCheckpoint\<close> keep
  \<open>checkpointScn \<le> confirmedScn\<close> and decrease neither value; \<open>confirmMessage\<close> changes
  the confirmed and the checkpoint position only when the message's \<open>(lwnScn, lwnIdx)\<close> is
  strictly greater than \<open>(confirmedScn, confirmedIdx)\<close>, and \<open>writeCheckpoint\<close> never
  changes \<open>confirmedScn\<close>. \<open>readCheckpoint\<close> never changes the confirmed position and
  assigns the stored SCN, if there is one, to \<open>checkpointScn\<close>. Its only call is at the
  start of \<open>run\<close>, on the writer as constructed, where \<open>checkpointScn\<close> and
  \<open>confirmedScn\<close> are \<open>Scn::none()\<close>, the value of an SCN that is not set: the call sets
  the checkpoint SCN and lowers no SCN that was set. In every run, that is the constructor,
  \<open>readCheckpoint\<close> and then any sequence of calls of \<open>confirmMessage\<close> and
  \<open>writeCheckpoint\<close>, the invariant holds after \<open>readCheckpoint\<close> and after every call,
  and no call decreases \<open>confirmedScn\<close> or \<open>checkpointScn\<close>.
\<close>

theorem writer_scn_invariant:
  assumes "checkpointScn w \<le> confirmedScn w"
  shows "(let w' = confirmMessage now msg w
          in checkpointScn w' \<le> confirmedScn w' \<and> confirmedScn w \<le> confirmedScn w' \<and>
             checkpointScn w \<le> checkpointScn w' \<and>
             (confirmedScn w', confirmedIdx w', checkpointScn w', checkpointIdx w') =
               (if msgNewer msg w then (lwnScn msg, lwnIdx msg, lwnScn msg, lwnIdx msg)
                else (confirmedScn w, confirmedIdx w, checkpointScn w, checkpointIdx w)))
       \<and> (let w' = writeCheckpoint i now ok force w
          in checkpointScn w' \<le> confirmedScn w' \<and> confirmedScn w' = confirmedScn w \<and>
             checkpointScn w \<le> checkpointScn w')
       \<and> (case readCheckpoint stored w of
            Inl e \<Rightarrow> True
          | Inr w' \<Rightarrow> confirmedScn w' = confirmedScn w \<and> confirmedIdx w' = confirmedIdx w \<and>
              checkpointScn w' = (case stored of StateDoc d rl act s i \<Rightarrow> s | _ \<Rightarrow> checkpointScn w) \<and>
              (confirmedScn w = Scn_none \<longrightarrow> checkpointScn w' \<le> confirmedScn w'))
       \<and> (case readCheckpoint stored (Writer_new db t md) of
            Inl e \<Rightarrow> True
          | Inr w0 \<Rightarrow>
              checkpointScn (Writer_new db t md) = Scn_none \<and>
              confirmedScn (Writer_new db t md) = Scn_none \<and>
              checkpointScn w0 \<le> confirmedScn w0 \<and>
              (\<forall>cs c. checkpointScn (writerCall c (writerCalls cs w0))
                         \<le> confirmedScn (writerCall c (writerCalls cs w0)) \<and>
                       confirmedScn (writerCalls cs w0)
                         \<le> confirmedScn (writerCall c (writerCalls cs w0)) \<and>
                       checkpointScn (writerCalls cs w0)
                         \<le> checkpointScn (writerCall c (writerCalls cs w0))))"
  using confirmMessage_invariant [OF assms, of now msg]
        writeCheckpoint_invariant [OF assms, of i now ok force]
        readCheckpoint_fields [where stored = stored and w = w]
        run_invariant [where stored = stored and db = db and t = t and md = md]
  by blast

theorem writer_scn_invariant_witness:
  "(let w = (Writer_new ''DB'' 0 metadata0)\<lparr>checkpointScn := 100, confirmedScn := 100\<rparr>
    in checkpointScn w \<le> confirmedScn w \<and>
       checkpointScn (confirmMessage 40 \<lparr>lwnScn = 200, lwnIdx = 1\<rparr> w) = 200 \<and>
       confirmedScn (confirmMessage 40 \<lparr>lwnScn = 200, lwnIdx = 1\<rparr> w) = 200 \<and>
       confirmedScn (confirmMessage 40 \<lparr>lwnScn = 50, lwnIdx = 1\<rparr> w) = 100 \<and>
       checkpointScn (writeCheckpoint 10 40 True True w)
         \<le> confirmedScn (writeCheckpoint 10 40 True True w))
   \<and> (let w = Writer_new ''DB'' 0 metadata0
       in checkpointScn w \<le> confirmedScn w \<and> confirmedScn w = Scn_none \<and>
          (case readCheckpoint (StateDoc ''DB'' 1 1 100 (Some 0)) w of
             Inl e \<Rightarrow> False
           | Inr w' \<Rightarrow>
               confirmedScn w' = Scn_none \<and> checkpointScn w' = 100 \<and>
               checkpointScn w' \<le> confirmedScn w' \<and>
               checkpointScn
                  (writerCall (CallCheckpoint 10 50 True True)
                     (writerCalls [CallConfirm 40 \<lparr>lwnScn = 200, lwnIdx = 1\<rparr>] w'))
                 \<le> confirmedScn
                  (writerCall (CallCheckpoint 10 50 True True)
                     (writerCalls [CallConfirm 40 \<lparr>lwnScn = 200, lwnIdx = 1\<rparr>] w')) \<and>
               checkpointScn (writerCalls [CallConfirm 40 \<lparr>lwnScn = 200, lwnIdx = 1\<rparr>] w')
                 \<le> checkpointScn
                  (writerCall (CallCheckpoint 10 50 True True)
                     (writerCalls [CallConfirm 40 \<lparr>lwnScn = 200, lwnIdx = 1\<rparr>] w'))))"
proof -
  let ?w = "(Writer_new ''DB'' 0 metadata0)\<lparr>checkpointScn := 100, confirmedScn := 100\<rparr>"
  let ?v = "Writer_new ''DB'' 0 metadata0"
  let ?st = "StateDoc ''DB'' 1 1 100 (Some 0)"
  let ?v' = "?v\<lparr>checkpointScn := 100, checkpointIdx := 0,
               metadata := (metadata ?v)\<lparr>resetlogs := 1, activation := 1, clientScn := 100,
                 clientIdx := 0, startScn := 100, startSequence := Seq_none, startTime := [],
                 startTimeRel := 0, statusReplicate := True\<rparr>\<rparr>"
  have h: "checkpointScn ?w \<le> confirmedScn ?w" by simp
  have g: "checkpointScn ?v \<le> confirmedScn ?v" by (simp add: Writer_new_def)
  have n: "msgNewer \<lparr>lwnScn = 200, lwnIdx = 1\<rparr> ?w" by (simp add: msgNewer_def)
  have o: "\<not> msgNewer \<lparr>lwnScn = 50, lwnIdx = 1\<rparr> ?w" by (simp add: msgNewer_def)
  have v: "confirmedScn ?v = Scn_none" by (simp add: Writer_new_def)
  have rd: "readCheckpoint ?st ?v = Inr ?v'"
    by (simp add: readCheckpoint_def Writer_new_def)
  from writer_scn_invariant [OF h, where now = 40 and msg = "\<lparr>lwnScn = 200, lwnIdx = 1\<rparr>"
         and i = 10 and ok = True and force = True and stored = StateAbsent
         and db = "''DB''" and t = 0 and md = metadata0] n
  have a1: "checkpointScn (confirmMessage 40 \<lparr>lwnScn = 200, lwnIdx = 1\<rparr> ?w) = 200"
       "confirmedScn (confirmMessage 40 \<lparr>lwnScn = 200, lwnIdx = 1\<rparr> ?w) = 200"
       "checkpointScn (writeCheckpoint 10 40 True True ?w)
         \<le> confirmedScn (writeCheckpoint 10 40 True True ?w)"
    by (auto simp: Let_def)
  from writer_scn_invariant [OF h, where now = 40 and msg = "\<lparr>lwnScn = 50, lwnIdx = 1\<rparr>"
         and i = 10 and ok = True and force = True and stored = StateAbsent
         and db = "''DB''" and t = 0 and md = metadata0] o
  have a2: "confirmedScn (confirmMessage 40 \<lparr>lwnScn = 50, lwnIdx = 1\<rparr> ?w) = 100"
    by (auto simp: Let_def)
  from writer_scn_invariant [OF g, where now = 40 and msg = "\<lparr>lwnScn = 50, lwnIdx = 1\<rparr>"
         and i = 10 and ok = True and force = True and stored = ?st
         and db = "''DB''" and t = 0 and md = metadata0]
  have a3: "confirmedScn ?v' = confirmedScn ?v \<and> checkpointScn ?v' = 100 \<and>
       (confirmedScn ?v = Scn_none \<longrightarrow> checkpointScn ?v' \<le> confirmedScn ?v')"
    and a4: "\<forall>cs c. checkpointScn (writerCall c (writerCalls cs ?v'))
                         \<le> confirmedScn (writerCall c (writerCalls cs ?v')) \<and>
                       confirmedScn (writerCalls cs ?v')
                         \<le> confirmedScn (writerCall c (writerCalls cs ?v')) \<and>
                       checkpointScn (writerCalls cs ?v')
                         \<le> checkpointScn (writerCall c (writerCalls cs ?v'))"
    unfolding rd by simp_all
  from a4 have a5:
    "checkpointScn (writerCall (CallCheckpoint 10 50 True True)
        (writerCalls [CallConfirm 40 \<lparr>lwnScn = 200, lwnIdx = 1\<rparr>] ?v'))
       \<le> confirmedScn (writerCall (CallCheckpoint 10 50 True True)
        (writerCalls [CallConfirm 40 \<lparr>lwnScn = 200, lwnIdx = 1\<rparr>] ?v'))"
    "checkpointScn (writerCalls [CallConfirm 40 \<lparr>lwnScn = 200, lwnIdx = 1\<rparr>] ?v')
       \<le> checkpointScn (writerCall (CallCheckpoint 10 50 True True)
        (writerCalls [CallConfirm 40 \<lparr>lwnScn = 200, lwnIdx = 1\<rparr>] ?v'))"
    by blast+
  from a3 v have a6: "confirmedScn ?v' = Scn_none" "checkpointScn ?v' = 100"
    "checkpointScn ?v' \<le> confirmedScn ?v'" by simp_all
  have first: "let w = ?w
    in checkpointScn w \<le> confirmedScn w \<and>
       checkpointScn (confirmMessage 40 \<lparr>lwnScn = 200, lwnIdx = 1\<rparr> w) = 200 \<and>
       confirmedScn (confirmMessage 40 \<lparr>lwnScn = 200, lwnIdx = 1\<rparr> w) = 200 \<and>
       confirmedScn (confirmMessage 40 \<lparr>lwnScn = 50, lwnIdx = 1\<rparr> w) = 100 \<and>
       checkpointScn (writeCheckpoint 10 40 True True w)
         \<le> confirmedScn (writeCheckpoint 10 40 True True w)"
    unfolding Let_def using h a1 a2 by blast
  have second: "let w = ?v
       in checkpointScn w \<le> confirmedScn w \<and> confirmedScn w = Scn_none \<and>
          (case readCheckpoint ?st w of
             Inl e \<Rightarrow> False
           | Inr w' \<Rightarrow>
               confirmedScn w' = Scn_none \<and> checkpointScn w' = 100 \<and>
               checkpointScn w' \<le> confirmedScn w' \<and>
               checkpointScn
                  (writerCall (CallCheckpoint 10 50 True True)
                     (writerCalls [CallConfirm 40 \<lparr>lwnScn = 200, lwnIdx = 1\<rparr>] w'))
                 \<le> confirmedScn
                  (writerCall (CallCheckpoint 10 50 True True)
                     (writerCalls [CallConfirm 40 \<lparr>lwnScn = 200, lwnIdx = 1\<rparr>] w')) \<and>
               checkpointScn (writerCalls [CallConfirm 40 \<lparr>lwnScn = 200, lwnIdx = 1\<rparr>] w')
                 \<le> checkpointScn
                  (writerCall (CallCheckpoint 10 50 True True)
                     (writerCalls [CallConfirm 40 \<lparr>lwnScn = 200, lwnIdx = 1\<rparr>] w')))"
    unfolding Let_def rd sum.case using g v a5 a6 by blast
  from first second show ?thesis ..
qed

section \<open>Results: Parser\<close>

lemma image_mset_upd_in:
  assumes "finite S" "i \<in> S"
  shows "image_mset (f(i := v)) (mset_set S) = add_mset v (image_mset f (mset_set (S - {i})))"
proof -
  from assms have "mset_set S = add_mset i (mset_set (S - {i}))"
    by (rule mset_set.remove)
  moreover have "image_mset (f(i := v)) (mset_set (S - {i})) = image_mset f (mset_set (S - {i}))"
    using assms(1) by (intro image_mset_cong) auto
  ultimately show ?thesis by simp
qed

lemma image_mset_move:
  assumes "finite S" "p \<in> S" "c \<in> S" "p \<noteq> c"
  shows "image_mset (f(p := f c, c := x)) (mset_set S) = image_mset (f(p := x)) (mset_set S)"
proof -
  have fin: "finite (S - {c})" "finite (S - {p})" using assms(1) by auto
  have pc: "p \<in> S - {c}" "c \<in> S - {p}" using assms by auto
  have l1: "image_mset (f(p := f c, c := x)) (mset_set S)
      = add_mset x (image_mset (f(p := f c)) (mset_set (S - {c})))"
    by (rule image_mset_upd_in [OF assms(1) assms(3)])
  have l2: "image_mset (f(p := f c)) (mset_set (S - {c}))
      = add_mset (f c) (image_mset f (mset_set (S - {c} - {p})))"
    by (rule image_mset_upd_in [OF fin(1) pc(1)])
  have r1: "image_mset (f(p := x)) (mset_set S) = add_mset x (image_mset f (mset_set (S - {p})))"
    by (rule image_mset_upd_in [OF assms(1) assms(2)])
  have r2: "mset_set (S - {p}) = add_mset c (mset_set (S - {p} - {c}))"
    by (rule mset_set.remove [OF fin(2) pc(2)])
  have r3: "image_mset f (mset_set (S - {p})) = add_mset (f c) (image_mset f (mset_set (S - {p} - {c})))"
    by (subst r2) simp
  have sw: "S - {c} - {p} = S - {p} - {c}" by auto
  show ?thesis
    unfolding l1 l2 r1 r3 sw ..
qed

lemma siftDown_hole:
  "siftDown a n p = (a', q) \<Longrightarrow> 0 < p \<Longrightarrow> p < n \<Longrightarrow>
   q < n \<and> 0 < q \<and> a' n = a n \<and>
   (\<forall>x. image_mset (a'(q := x)) (mset_set {1..<n}) = image_mset (a(p := x)) (mset_set {1..<n}))"
proof (induction a n p arbitrary: a' q rule: siftDown.induct)
  case (1 a n p)
  let ?l = "p * 2" and ?r = "p * 2 + 1"
  let ?S = "{1..<n}"
  from "1.prems" have p0: "p \<noteq> 0" by simp
  have pin: "p \<in> ?S" using "1.prems" by simp
  have step: "q < n \<and> 0 < q \<and> a' n = a n \<and>
      (\<forall>x. image_mset (a'(q := x)) (mset_set ?S) = image_mset (a(p := x)) (mset_set ?S))"
    if c: "p < c" "c < n"
      and ih: "q < n \<and> 0 < q \<and> a' n = (a(p := a c)) n \<and>
        (\<forall>x. image_mset (a'(q := x)) (mset_set ?S)
             = image_mset (a(p := a c, c := x)) (mset_set ?S))"
    for c
  proof -
    have cin: "c \<in> ?S" using c "1.prems" by simp
    have pc: "p \<noteq> c" using c by simp
    have mv: "image_mset (a(p := a c, c := x)) (mset_set ?S) = image_mset (a(p := x)) (mset_set ?S)"
      for x by (rule image_mset_move [OF _ pin cin pc]) simp
    have "(a(p := a c)) n = a n" using "1.prems" by simp
    with ih have a1: "q < n" "0 < q" "a' n = a n" by simp_all
    have a2: "image_mset (a'(q := x)) (mset_set ?S) = image_mset (a(p := x)) (mset_set ?S)" for x
      using ih mv [of x] by (simp only:)
    from a1 a2 show ?thesis by blast
  qed
  show ?case
  proof (cases "?l < n \<and> LwnMember_less (a ?l) (a n)")
    case left: True
    show ?thesis
    proof (cases "?r < n \<and> LwnMember_less (a ?r) (a ?l)")
      case True
      have eq: "siftDown a n p = siftDown (a(p := a ?r)) n ?r"
        using p0 left True by (subst siftDown.simps) simp
      with "1.prems" have rec: "siftDown (a(p := a ?r)) n ?r = (a', q)" by simp
      have "0 < ?r" "?r < n" "p < ?r" using True by simp_all
      from step [OF this(3) this(2) "1.IH"(1) [OF p0 left True rec this(1) this(2)]]
      show ?thesis .
    next
      case False
      have eq: "siftDown a n p = siftDown (a(p := a ?l)) n ?l"
        by (subst siftDown.simps) (simp only: p0 left False if_False if_True simp_thms)
      with "1.prems" have rec: "siftDown (a(p := a ?l)) n ?l = (a', q)" by simp
      have "0 < ?l" "?l < n" "p < ?l" using left "1.prems" by simp_all
      from step [OF this(3) this(2) "1.IH"(2) [OF p0 left False rec this(1) this(2)]]
      show ?thesis .
    qed
  next
    case noleft: False
    show ?thesis
    proof (cases "?r < n \<and> LwnMember_less (a ?r) (a n)")
      case True
      have eq: "siftDown a n p = siftDown (a(p := a ?r)) n ?r"
        using p0 noleft True by (subst siftDown.simps) simp
      with "1.prems" have rec: "siftDown (a(p := a ?r)) n ?r = (a', q)" by simp
      have "0 < ?r" "?r < n" "p < ?r" using True by simp_all
      from step [OF this(3) this(2) "1.IH"(3) [OF p0 noleft True rec this(1) this(2)]]
      show ?thesis .
    next
      case False
      have eq: "siftDown a n p = (a, p)"
        by (subst siftDown.simps) (simp only: p0 noleft False if_False if_True simp_thms)
      with "1.prems" have "a' = a" "q = p" by simp_all
      with "1.prems" show ?thesis by simp
    qed
  qed
qed

lemma heapMembers_pop:
  assumes "2 \<le> n"
  shows "heapMembers a n = add_mset (a 1) (heapMembers (lwnPop a n) (n - 1))"
proof -
  let ?T = "{1..<n} - {1}"
  obtain a' q where sd: "siftDown a n 1 = (a', q)" by (cases "siftDown a n 1")
  from assms have "0 < (1::nat)" "1 < n" by simp_all
  from siftDown_hole [OF sd this]
  have q: "q < n" "0 < q" and an: "a' n = a n"
    and ms: "\<And>x. image_mset (a'(q := x)) (mset_set {1..<n}) = image_mset (a(1 := x)) (mset_set {1..<n})"
    by simp_all
  have pop: "lwnPop a n = a'(q := a n)"
    unfolding lwnPop_def sd by (simp add: an)
  have s1: "{1..n - 1} = {1..<n}" using assms by auto
  have one: "1 \<in> {1..<n}" using assms by simp
  have "heapMembers (lwnPop a n) (n - 1) = image_mset (a'(q := a n)) (mset_set {1..<n})"
    unfolding heapMembers_def pop s1 ..
  also have "\<dots> = image_mset (a(1 := a n)) (mset_set {1..<n})"
    by (rule ms)
  also have "\<dots> = add_mset (a n) (image_mset a (mset_set ?T))"
    by (rule image_mset_upd_in [OF _ one]) simp
  finally have r: "heapMembers (lwnPop a n) (n - 1) = add_mset (a n) (image_mset a (mset_set ?T))" .
  have m1: "mset_set {1..n} = add_mset 1 (mset_set ({1..n} - {1}))"
    using assms by (intro mset_set.remove) auto
  have m2: "mset_set ({1..n} - {1}) = add_mset n (mset_set ({1..n} - {1} - {n}))"
    using assms by (intro mset_set.remove) auto
  have m3: "{1..n} - {1} - {n} = ?T" by auto
  have "heapMembers a n = add_mset (a 1) (add_mset (a n) (image_mset a (mset_set ?T)))"
    unfolding heapMembers_def m1 m2 m3 by simp
  with r show ?thesis by (simp only:)
qed

lemma dispatched_append: "dispatched (xs @ ys) = dispatched xs @ dispatched ys"
  by (induction xs rule: dispatched.induct) simp_all

lemma analyzeStep_dispatched:
  "analyzeStep f ig m = Inr evs \<Longrightarrow> dispatched evs = [m]"
  by (auto simp: analyzeStep_def split: AnalyzeResult.splits if_splits)

lemma dispatchLwn_all:
  "dispatchLwn f ig a n = Inr evs \<Longrightarrow> mset (dispatched evs) = heapMembers a n"
proof (induction f ig a n arbitrary: evs rule: dispatchLwn.induct)
  case (1 f ig a n)
  show ?case
  proof (cases "n = 0")
    case True
    with "1.prems" show ?thesis
      by (subst (asm) dispatchLwn.simps) (simp add: heapMembers_def)
  next
    case n0: False
    from "1.prems" n0 obtain e1 where e1: "analyzeStep f ig (a 1) = Inr e1"
      by (subst (asm) dispatchLwn.simps) (auto split: sum.splits)
    show ?thesis
    proof (cases "n = 1")
      case True
      with "1.prems" e1 have "evs = e1"
        by (subst (asm) dispatchLwn.simps) simp
      with e1 True show ?thesis
        by (simp add: analyzeStep_dispatched heapMembers_def)
    next
      case n1: False
      from "1.prems" n0 n1 e1 obtain rest where
        rest: "dispatchLwn f ig (lwnPop a n) (n - 1) = Inr rest" and evs: "evs = e1 @ rest"
        by (subst (asm) dispatchLwn.simps) (auto split: sum.splits)
      from "1.IH" [OF n0 e1 n1 rest]
      have "mset (dispatched rest) = heapMembers (lwnPop a n) (n - 1)" .
      moreover from n0 n1 have "2 \<le> n" by simp
      ultimately show ?thesis
        using e1 evs by (simp add: dispatched_append analyzeStep_dispatched heapMembers_pop)
    qed
  qed
qed

lemma siftUp_hole:
  "siftUp m a pos = (a', q) \<Longrightarrow> 0 < pos \<Longrightarrow> pos \<le> N \<Longrightarrow>
   0 < q \<and> q \<le> pos \<and>
   (\<forall>x. image_mset (a'(q := x)) (mset_set {1..N}) = image_mset (a(pos := x)) (mset_set {1..N}))"
proof (induction m a pos arbitrary: a' q rule: siftUp.induct)
  case (1 m a pos)
  show ?case
  proof (cases "pos > 1 \<and> LwnMember_less m (a (pos div 2))")
    case True
    let ?h = "pos div 2"
    have eq: "siftUp m a pos = siftUp m (a(pos := a ?h)) ?h"
      by (subst siftUp.simps) (simp only: True if_True simp_thms)
    with "1.prems" have rec: "siftUp m (a(pos := a ?h)) ?h = (a', q)" by simp
    from True have h: "0 < ?h" "?h < pos" by auto
    with "1.prems" have hN: "?h \<le> N" by simp
    from "1.IH" [OF True rec h(1) hN]
    have ih: "0 < q" "q \<le> ?h"
       "\<And>x. image_mset (a'(q := x)) (mset_set {1..N})
            = image_mset (a(pos := a ?h, ?h := x)) (mset_set {1..N})" by blast+
    have pin: "pos \<in> {1..N}" "?h \<in> {1..N}" "pos \<noteq> ?h" using h "1.prems" hN by auto
    have mv: "image_mset (a(pos := a ?h, ?h := x)) (mset_set {1..N})
        = image_mset (a(pos := x)) (mset_set {1..N})" for x
      by (rule image_mset_move [OF _ pin]) simp
    have ms: "image_mset (a'(q := x)) (mset_set {1..N}) = image_mset (a(pos := x)) (mset_set {1..N})" for x
      using ih(3) [of x] mv [of x] by (simp only:)
    have "q \<le> pos" using ih(2) h(2) by simp
    with ih(1) ms show ?thesis by blast
  next
    case False
    have eq: "siftUp m a pos = (a, pos)"
      by (subst siftUp.simps) (simp only: False if_False simp_thms)
    with "1.prems" have "a' = a" "q = pos" by simp_all
    with "1.prems" show ?thesis by simp
  qed
qed

lemma lwnInsert_members:
  assumes "lwnInsert m (a, n) = Inr (a', n')"
  shows "n' = n + 1 \<and> heapMembers a' n' = add_mset m (heapMembers a n)"
proof -
  obtain b q where su: "siftUp m a (n + 1) = (b, q)" by (cases "siftUp m a (n + 1)")
  from assms su have res: "n' = n + 1" "a' = b(q := m)"
    by (auto simp: lwnInsert_def Let_def split: if_splits)
  have "0 < n + 1" "n + 1 \<le> n + 1" by simp_all
  from siftUp_hole [OF su this]
  have "image_mset (b(q := m)) (mset_set {1..n + 1}) = image_mset (a(n + 1 := m)) (mset_set {1..n + 1})"
    by blast
  also have "\<dots> = add_mset m (image_mset a (mset_set ({1..n + 1} - {n + 1})))"
    by (rule image_mset_upd_in) auto
  also have "{1..n + 1} - {n + 1} = {1..n}" by auto
  finally show ?thesis unfolding res heapMembers_def by blast
qed

lemma lwnInsertAll_members:
  "lwnInsertAll ms (a, n) = Inr (a', n') \<Longrightarrow>
   n' = n + length ms \<and> heapMembers a' n' = mset ms + heapMembers a n"
proof (induction ms arbitrary: a n)
  case Nil
  then show ?case by simp
next
  case (Cons m ms)
  from Cons.prems obtain b k where ins: "lwnInsert m (a, n) = Inr (b, k)"
    and rest: "lwnInsertAll ms (b, k) = Inr (a', n')"
    by (auto split: sum.splits)
  from lwnInsert_members [OF ins]
  have k: "k = n + 1" and hb: "heapMembers b k = add_mset m (heapMembers a n)" by blast+
  from Cons.IH [OF rest]
  have "n' = k + length ms" and "heapMembers a' n' = mset ms + heapMembers b k" by blast+
  with k hb show ?case by simp
qed

lemma insert_two:
  "(case lwnInsertAll [recA, recB] (\<lambda>i. rec0, 0) of
     Inl e \<Rightarrow> False
   | Inr (a, n) \<Rightarrow> n = 2 \<and> a 1 = recB \<and> a 2 = recA)"
  by (simp add: lwnInsert_def siftUp.simps MAX_RECORDS_IN_LWN_def LwnMember_less_def
        recA_def recB_def)

lemma dispatch_two:
  "a 1 = recB \<Longrightarrow> a 2 = recA \<Longrightarrow>
   dispatchLwn (\<lambda>m. Analyzed) False a 2 = Inr [AnalyzeLwn recB, AnalyzeLwn recA]"
  apply (subst dispatchLwn.simps)
  apply (simp add: analyzeStep_def)
  apply (subst dispatchLwn.simps)
  apply (simp add: analyzeStep_def lwnPop_def)
  apply (subst siftDown.simps)
  apply simp
  done

text \<open>
  C1. The claim: the records of a batch reach \<open>analyzeLwn\<close> in ascending
  (sub-SCN, page offset) order. The code on a batch of two blocks: \<open>recA\<close> (block 5,
  offset 200, sub-SCN 1) is scanned and inserted first, \<open>recB\<close> (block 6, offset 16,
  sub-SCN 2) second; \<open>recB\<close> is dispatched first, although its sub-SCN is the greater,
  because \<open>LwnMember::operator<\<close> compares the page offsets only.
\<close>

theorem lwn_dispatch_ignores_subScn:
  "(case lwnInsertAll [recA, recB] (\<lambda>i. rec0, 0) of
      Inl e \<Rightarrow> Inl e
    | Inr (a, n) \<Rightarrow> dispatchLwn (\<lambda>m. Analyzed) False a n)
   = Inr [AnalyzeLwn recB, AnalyzeLwn recA]
   \<and> subScn recA < subScn recB \<and> block recA < block recB \<and> scn recA = scn recB"
  using insert_two by (auto split: sum.splits simp: dispatch_two) (simp_all add: recA_def recB_def)

lemma checkpointCalls_lwnRecords:
  "checkpointCalls env (p\<lparr>p_lwnRecords := k\<rparr>) = checkpointCalls env p"
  by (simp add: checkpointCalls_def)

lemma stopCheckpointsStep_events:
  "set (snd (stopCheckpointsStep env p)) \<subseteq> {CtxInfo 0, StopSoft}"
  by (simp add: stopCheckpointsStep_def Let_def)

text \<open>
  C5. At the end of a batch (\<open>currentBlock = lwnEndBlock\<close> and \<open>lwnNumCnt = lwnNumMax\<close>)
  that \<open>parse\<close> leaves without an exception, the calls are, in this order: \<open>analyzeLwn\<close>
  on every member of the heap, each exactly once; then, if \<open>lwnScn > firstDataScn\<close>,
  \<open>builder->processCheckpoint(lwnScn, sequence, timestamp, fileOffset, switchRedo)\<close>,
  \<open>transactionBuffer->checkpoint\<close> and \<open>metadata->checkpoint\<close> with the
  \<open>(minSequence, minFileOffset, minXid)\<close> of the open transactions (followed by the
  stop-checkpoints countdown and the checkpoints-out metric), and otherwise nothing but the
  checkpoints-skipped metric, when metrics are on; in both cases \<open>freeLwn\<close> and the
  bytes-parsed metric close the batch.
\<close>

theorem lwnBatchEnd_checkpoint:
  assumes "p_currentBlock p = p_lwnEndBlock p" and "p_lwnNumCnt p = p_lwnNumMax p"
    and "lwnBatchEnd env p = Inr (p', evs)"
  shows "\<exists>ds stop.
     dispatchLwn (analyzeLwn env) (ignoreDataErrors env) (p_lwnMembers p) (p_lwnRecords p) = Inr ds \<and>
     mset (dispatched ds) = heapMembers (p_lwnMembers p) (p_lwnRecords p) \<and>
     set stop \<subseteq> {CtxInfo 0, StopSoft} \<and>
     evs = ds @
       (if p_lwnScn p > firstDataScn env
        then (case TransactionBuffer_checkpoint (openTransactions env) (Seq_none, 0, 0) of
                (minSequence, minFileOffset, minXid) \<Rightarrow>
                  [ProcessCheckpoint (p_lwnScn p) (p_sequence p) (p_lwnTimestamp p)
                     (p_currentBlock p, readerBlockSize env) (p_switchRedo p),
                   TransactionBufferCheckpoint,
                   MetadataCheckpoint (p_lwnScn p) (p_lwnTimestamp p) (p_sequence p)
                     (p_currentBlock p, readerBlockSize env)
                     (ucast (p_currentBlock p - p_lwnConfirmedBlock p) * ucast (readerBlockSize env))
                     minSequence minFileOffset minXid])
             @ stop @ (if metricsOn env then [EmitCheckpointsOut 1] else [])
        else (if metricsOn env then [EmitCheckpointsSkip 1] else []))
       @ batchTail env p"
proof -
  from assms obtain ds where
    ds: "dispatchLwn (analyzeLwn env) (ignoreDataErrors env) (p_lwnMembers p) (p_lwnRecords p) = Inr ds"
    by (auto simp: lwnBatchEnd_def split: sum.splits)
  let ?q = "p\<lparr>p_lwnRecords := 0\<rparr>"
  from assms ds have evs: "evs = ds @ snd (checkpointOrSkip env ?q) @ batchTail env p"
    by (auto simp: lwnBatchEnd_def split: prod.splits)
  have all: "mset (dispatched ds) = heapMembers (p_lwnMembers p) (p_lwnRecords p)"
    by (rule dispatchLwn_all [OF ds])
  let ?stop = "snd (stopCheckpointsStep env ?q)"
  have st: "set ?stop \<subseteq> {CtxInfo 0, StopSoft}"
    by (rule stopCheckpointsStep_events)
  have cs: "snd (checkpointOrSkip env ?q) =
       (if p_lwnScn p > firstDataScn env
        then checkpointCalls env p @ ?stop @ (if metricsOn env then [EmitCheckpointsOut 1] else [])
        else (if metricsOn env then [EmitCheckpointsSkip 1] else []))"
    by (simp add: checkpointOrSkip_def checkpointCalls_lwnRecords split: prod.splits)
  have cc: "checkpointCalls env p =
       (case TransactionBuffer_checkpoint (openTransactions env) (Seq_none, 0, 0) of
                (minSequence, minFileOffset, minXid) \<Rightarrow>
                  [ProcessCheckpoint (p_lwnScn p) (p_sequence p) (p_lwnTimestamp p)
                     (p_currentBlock p, readerBlockSize env) (p_switchRedo p),
                   TransactionBufferCheckpoint,
                   MetadataCheckpoint (p_lwnScn p) (p_lwnTimestamp p) (p_sequence p)
                     (p_currentBlock p, readerBlockSize env)
                     (ucast (p_currentBlock p - p_lwnConfirmedBlock p) * ucast (readerBlockSize env))
                     minSequence minFileOffset minXid])"
    by (simp add: checkpointCalls_def Let_def split: prod.splits)
  show ?thesis
    apply (rule exI [of _ ds])
    apply (rule exI [of _ ?stop])
    apply (intro conjI ds all st)
    apply (simp only: evs cs cc)
    done
qed

lemma parser0_dispatch:
  "dispatchLwn (analyzeLwn env0) (ignoreDataErrors env0) (p_lwnMembers parser0) (p_lwnRecords parser0)
   = Inr [AnalyzeLwn recB, AnalyzeLwn recA]"
  by (simp add: env0_def parser0_def dispatch_two)

lemma parser0_batchEnd:
  "lwnBatchEnd env0 parser0 =
     Inr (parser0\<lparr>p_lwnRecords := 0, p_lwnNumCnt := 0, p_lwnConfirmedBlock := 7\<rparr>,
          [AnalyzeLwn recB, AnalyzeLwn recA,
           ProcessCheckpoint 1000 9 77 (7, 512) False,
           TransactionBufferCheckpoint,
           MetadataCheckpoint 1000 77 9 (7, 512) 1024 8 1024 3,
           EmitCheckpointsOut 1, FreeLwn, EmitBytesParsed 1024])"
  unfolding lwnBatchEnd_def parser0_dispatch
  by (simp add: env0_def parser0_def checkpointOrSkip_def stopCheckpointsStep_def
        checkpointCalls_def batchTail_def Seq_none_def Let_def)

theorem lwnBatchEnd_checkpoint_witness:
  "p_currentBlock parser0 = p_lwnEndBlock parser0 \<and> p_lwnNumCnt parser0 = p_lwnNumMax parser0 \<and>
   firstDataScn env0 < p_lwnScn parser0 \<and>
   (\<exists>p' ds stop. lwnBatchEnd env0 parser0 = Inr (p', ds @
       [ProcessCheckpoint 1000 9 77 (7, 512) False, TransactionBufferCheckpoint,
        MetadataCheckpoint 1000 77 9 (7, 512) 1024 8 1024 3] @ stop @ [EmitCheckpointsOut 1] @
       batchTail env0 parser0) \<and>
     mset (dispatched ds) = heapMembers (p_lwnMembers parser0) (p_lwnRecords parser0))"
proof -
  have h1: "p_currentBlock parser0 = p_lwnEndBlock parser0" by (simp add: parser0_def)
  have h2: "p_lwnNumCnt parser0 = p_lwnNumMax parser0" by (simp add: parser0_def)
  have gt: "firstDataScn env0 < p_lwnScn parser0" by (simp add: parser0_def env0_def)
  have tb: "TransactionBuffer_checkpoint (openTransactions env0) (Seq_none, 0, 0) = (8, 1024, 3)"
    by (simp add: env0_def Seq_none_def)
  have ar: "p_lwnScn parser0 = 1000" "p_sequence parser0 = 9" "p_lwnTimestamp parser0 = 77"
    "p_currentBlock parser0 = 7" "readerBlockSize env0 = 512" "p_switchRedo parser0 = False"
    "p_lwnConfirmedBlock parser0 = 5" "metricsOn env0"
    by (simp_all add: parser0_def env0_def)
  from lwnBatchEnd_checkpoint [OF h1 h2 parser0_batchEnd]
  obtain ds stop where
    "mset (dispatched ds) = heapMembers (p_lwnMembers parser0) (p_lwnRecords parser0)"
    "[AnalyzeLwn recB, AnalyzeLwn recA,
           ProcessCheckpoint 1000 9 77 (7, 512) False,
           TransactionBufferCheckpoint,
           MetadataCheckpoint 1000 77 9 (7, 512) 1024 8 1024 3,
           EmitCheckpointsOut 1, FreeLwn, EmitBytesParsed 1024] = ds @
       [ProcessCheckpoint 1000 9 77 (7, 512) False, TransactionBufferCheckpoint,
        MetadataCheckpoint 1000 77 9 (7, 512) 1024 8 1024 3] @ stop @ [EmitCheckpointsOut 1] @
       batchTail env0 parser0"
    unfolding tb ar using gt by (auto simp: ar)
  with h1 h2 gt parser0_batchEnd show ?thesis by (metis)
qed

section \<open>Results: checksum\<close>

lemma bit_fold16:
  "bit (fold16 s) n \<longleftrightarrow>
     n < 16 \<and> ((bit s n \<noteq> bit s (n + 32)) \<noteq> (bit s (n + 16) \<noteq> bit s (n + 48)))"
  unfolding fold16_def foldSum_def Let_def
  by (auto simp: bit_simps add.commute)

lemma calcChSum_fold16: "calcChSum be buf sz = fold16 (xorWords buf (sz div 8)) XOR read16 be buf 14"
proof -
  have m: "(0xFFFF :: 64 word) = mask 16" by (simp add: mask_eq_exp_minus_1)
  show ?thesis
    unfolding calcChSum_def fold16_def Let_def m
    by (rule bit_eqI) (auto simp: bit_simps)
qed

lemma fold16_xor: "fold16 (x XOR y) = fold16 x XOR fold16 y"
  by (rule bit_eqI) (auto simp: bit_fold16 bit_simps)

lemma bit_byte_piece:
  fixes b :: "8 word"
  assumes "j < 8"
  shows "bit (push_bit (8 * i) (ucast b) :: 'a::len word) (8 * k + j) \<longleftrightarrow>
           i = k \<and> 8 * k + j < LENGTH('a) \<and> bit b j"
proof (cases "i = k")
  case True
  then show ?thesis using assms by (auto simp: bit_simps)
next
  case False
  then consider "i < k" | "k < i" by linarith
  then show ?thesis
  proof cases
    case 1
    then have "8 \<le> 8 * k + j - 8 * i" by simp
    then have "\<not> bit b (8 * k + j - 8 * i)"
      using bit_imp_le_length [of b "8 * k + j - 8 * i"] by auto
    with False show ?thesis by (simp add: bit_simps)
  next
    case 2
    then have "\<not> 8 * i \<le> 8 * k + j" using assms by simp
    with False show ?thesis by (simp add: bit_simps)
  qed
qed

lemma bit_load64_split:
  assumes "j < 8"
  shows "bit (load64 buf off) (8 * k + j) \<longleftrightarrow> k < 8 \<and> bit (buf (off + k)) j"
proof -
  have l: "load64 buf off =
     push_bit (8 * 0) (ucast (buf (off + 0))) OR push_bit (8 * 1) (ucast (buf (off + 1))) OR
     push_bit (8 * 2) (ucast (buf (off + 2))) OR push_bit (8 * 3) (ucast (buf (off + 3))) OR
     push_bit (8 * 4) (ucast (buf (off + 4))) OR push_bit (8 * 5) (ucast (buf (off + 5))) OR
     push_bit (8 * 6) (ucast (buf (off + 6))) OR push_bit (8 * 7) (ucast (buf (off + 7)))"
    by (simp add: load64_def)
  have u: "bit (load64 buf off) (8 * k + j) \<longleftrightarrow>
      (0 = k \<and> 8 * k + j < 64 \<and> bit (buf (off + 0)) j) \<or>
      (1 = k \<and> 8 * k + j < 64 \<and> bit (buf (off + 1)) j) \<or>
      (2 = k \<and> 8 * k + j < 64 \<and> bit (buf (off + 2)) j) \<or>
      (3 = k \<and> 8 * k + j < 64 \<and> bit (buf (off + 3)) j) \<or>
      (4 = k \<and> 8 * k + j < 64 \<and> bit (buf (off + 4)) j) \<or>
      (5 = k \<and> 8 * k + j < 64 \<and> bit (buf (off + 5)) j) \<or>
      (6 = k \<and> 8 * k + j < 64 \<and> bit (buf (off + 6)) j) \<or>
      (7 = k \<and> 8 * k + j < 64 \<and> bit (buf (off + 7)) j)"
    unfolding l bit_or_iff bit_byte_piece [OF assms] by simp
  show ?thesis
  proof (cases "k < 8")
    case False
    then show ?thesis unfolding u by simp
  next
    case True
    then consider "k = 0" | "k = 1" | "k = 2" | "k = 3" | "k = 4" | "k = 5" | "k = 6" | "k = 7"
      by linarith
    then show ?thesis
      unfolding u using assms by cases simp_all
  qed
qed

lemma bit_read16_split:
  assumes "j < 8"
  shows "bit (read16 False buf off) (8 * k + j) \<longleftrightarrow> k < 2 \<and> bit (buf (off + k)) j"
proof -
  have l: "read16 False buf off =
     push_bit (8 * 0) (ucast (buf (off + 0))) OR push_bit (8 * 1) (ucast (buf (off + 1)))"
    by (simp add: read16_def)
  have u: "bit (read16 False buf off) (8 * k + j) \<longleftrightarrow>
      (0 = k \<and> 8 * k + j < 16 \<and> bit (buf (off + 0)) j) \<or>
      (1 = k \<and> 8 * k + j < 16 \<and> bit (buf (off + 1)) j)"
    unfolding l bit_or_iff bit_byte_piece [OF assms] by simp
  show ?thesis
  proof (cases "k < 2")
    case False
    then show ?thesis unfolding u by simp
  next
    case True
    then consider "k = 0" | "k = 1" by linarith
    then show ?thesis
      unfolding u using assms by cases simp_all
  qed
qed

lemma load64_other:
  "off + 8 \<le> 14 \<or> 16 \<le> off \<Longrightarrow> load64 (buf(14 := a, 15 := b)) off = load64 buf off"
  by (auto simp: load64_def)

lemma xor_cancel_mid: "(x XOR w) XOR (w XOR w') = x XOR (w' :: 'a::len word)"
  by (rule bit_eqI) (auto simp: bit_xor_iff)

lemma xor_shift_right: "(x XOR d) XOR w = (x XOR w) XOR (d :: 'a::len word)"
  by (rule bit_eqI) (auto simp: bit_xor_iff)

lemma xorWords_upd:
  "2 \<le> k \<Longrightarrow>
   xorWords (buf(14 := a, 15 := b)) k =
     xorWords buf k XOR (load64 buf 8 XOR load64 (buf(14 := a, 15 := b)) 8)"
proof (induction k rule: dec_induct)
  case base
  have "xorWords (buf(14 := a, 15 := b)) 2
      = load64 (buf(14 := a, 15 := b)) 0 XOR load64 (buf(14 := a, 15 := b)) 8"
    by (simp add: numeral_2_eq_2)
  also have "load64 (buf(14 := a, 15 := b)) 0 = load64 buf 0"
    by (rule load64_other) simp
  finally have l: "xorWords (buf(14 := a, 15 := b)) 2
      = load64 buf 0 XOR load64 (buf(14 := a, 15 := b)) 8" .
  have r: "xorWords buf 2 = load64 buf 0 XOR load64 buf 8"
    by (simp add: numeral_2_eq_2)
  show ?case unfolding l r by (simp only: xor_cancel_mid)
next
  case (step n)
  have "load64 (buf(14 := a, 15 := b)) (8 * n) = load64 buf (8 * n)"
    using step.hyps by (intro load64_other) simp
  then show ?case
    by (simp only: xorWords.simps step.IH xor_shift_right)
qed

lemma fold16_delta:
  "fold16 (load64 buf 8 XOR load64 (buf(14 := a, 15 := b)) 8)
     = read16 False buf 14 XOR read16 False (buf(14 := a, 15 := b)) 14"
proof (rule bit_eqI)
  fix n
  assume "possible_bit TYPE(16 word) n"
  then have n16: "n < 16" by (simp add: possible_bit_def)
  let ?buf' = "buf(14 := a, 15 := b)"
  define k j where "k = n div 8" and "j = n mod 8"
  have n: "n = 8 * k + j" and j: "j < 8" by (simp_all add: k_def j_def)
  from n16 have "k < 2" by (simp add: k_def)
  then consider "k = 0" | "k = 1" by linarith
  then have bits: "(bit (load64 buf 8) (8 * (k + m) + j) \<noteq> bit (load64 ?buf' 8) (8 * (k + m) + j))
      \<longleftrightarrow> (m = 6 \<and> (bit (buf (14 + k)) j \<noteq> bit (?buf' (14 + k)) j))"
    if "m = 0 \<or> m = 2 \<or> m = 4 \<or> m = 6" for m
    unfolding bit_load64_split [OF j] using that by cases auto
  have bf: "bit (fold16 s) (8 * k + j) \<longleftrightarrow>
      8 * k + j < 16 \<and>
      ((bit s (8 * (k + 0) + j) \<noteq> bit s (8 * (k + 4) + j)) \<noteq>
       (bit s (8 * (k + 2) + j) \<noteq> bit s (8 * (k + 6) + j)))" for s
    by (simp add: bit_fold16 algebra_simps)
  have "bit (fold16 (load64 buf 8 XOR load64 ?buf' 8)) (8 * k + j)
      \<longleftrightarrow> (bit (buf (14 + k)) j \<noteq> bit (?buf' (14 + k)) j)"
    unfolding bf bit_xor_iff
    using n16 n
    by (simp only: bits [OF disjI1 [OF refl]] bits [OF disjI2 [OF disjI1 [OF refl]]]
          bits [OF disjI2 [OF disjI2 [OF disjI1 [OF refl]]]]
          bits [OF disjI2 [OF disjI2 [OF disjI2 [OF refl]]]]) simp
  also have "\<dots> \<longleftrightarrow> bit (read16 False buf 14 XOR read16 False ?buf' 14) (8 * k + j)"
    unfolding bit_xor_iff bit_read16_split [OF j] using \<open>k < 2\<close> by simp
  finally show "bit (fold16 (load64 buf 8 XOR load64 ?buf' 8)) n
      \<longleftrightarrow> bit (read16 False buf 14 XOR read16 False ?buf' 14) n"
    unfolding n .
qed

lemma calcChSum_little_independent:
  assumes "16 \<le> sz"
  shows "calcChSum False (buf(14 := a, 15 := b)) sz = calcChSum False buf sz"
proof -
  from assms have k: "2 \<le> sz div 8" by simp
  let ?buf' = "buf(14 := a, 15 := b)"
  let ?F = "fold16 (xorWords buf (sz div 8))"
  have x: "((F XOR (c XOR c')) XOR c') = F XOR (c :: 16 word)" for F c c'
    by (rule bit_eqI) (auto simp: bit_xor_iff)
  have "calcChSum False ?buf' sz
      = fold16 (xorWords buf (sz div 8) XOR (load64 buf 8 XOR load64 ?buf' 8))
          XOR read16 False ?buf' 14"
    unfolding calcChSum_fold16 xorWords_upd [OF k] ..
  also have "\<dots> = (?F XOR fold16 (load64 buf 8 XOR load64 ?buf' 8)) XOR read16 False ?buf' 14"
    by (simp only: fold16_xor [of "xorWords buf (sz div 8)"])
  also have "\<dots> = (?F XOR (read16 False buf 14 XOR read16 False ?buf' 14))
      XOR read16 False ?buf' 14"
    by (simp only: fold16_delta)
  also have "\<dots> = ?F XOR read16 False buf 14"
    by (rule x)
  finally show ?thesis unfolding calcChSum_fold16 .
qed

lemma checksum_test_iff:
  "(read16 be buf 14 = calcChSum be buf sz) \<longleftrightarrow> fold16 (xorWords buf (sz div 8)) = 0"
proof -
  have "(c = F XOR c) \<longleftrightarrow> F = 0" for c F :: "16 word"
  proof
    assume e: "c = F XOR c"
    have "\<not> bit F n" for n
      using arg_cong [OF e, of "\<lambda>w. bit w n"] by (auto simp: bit_xor_iff)
    then show "F = 0" by (intro bit_eqI) simp
  qed simp
  then show ?thesis unfolding calcChSum_fold16 .
qed

lemma load64_zero: "load64 (\<lambda>i. 0) off = 0"
  by (simp add: load64_def)

lemma xorWords_zero: "xorWords (\<lambda>i. 0) k = 0"
  by (induction k) (simp_all add: load64_zero)

text \<open>
  C10, as stated: overwriting the bytes 14-15 never changes \<open>calcChSum\<close>. With the context
  in big-endian byte order (a redo log of a big-endian database) the stored checksum is
  decoded in the other byte order than the 8-byte words; writing the byte 1 at offset 14 of
  a block of zeros changes the result from 0 to \<open>0x0101\<close>.
\<close>

theorem calcChSum_big_endian_counterexample:
  "calcChSum True ((\<lambda>i. 0)(14 := 1, 15 := 0)) 512 = 257 \<and> calcChSum True (\<lambda>i. 0) 512 = 0"
proof -
  have k: "(2::nat) \<le> 512 div 8" by simp
  have w: "load64 ((\<lambda>i. 0)(14 := 1, 15 := 0)) 8 = push_bit 48 1"
    by (simp add: load64_def)
  have f: "fold16 (push_bit 48 1) = 1"
    by (simp add: fold16_def foldSum_def Let_def)
  have x: "xorWords ((\<lambda>i. 0)(14 := 1, 15 := 0)) (512 div 8) = push_bit 48 1"
    unfolding xorWords_upd [OF k] xorWords_zero load64_zero w by simp
  have a: "calcChSum True ((\<lambda>i. 0)(14 := 1, 15 := 0)) 512 = 257"
    unfolding calcChSum_fold16 x f by (simp add: read16_def)
  have b: "calcChSum True (\<lambda>i. 0) 512 = 0"
    unfolding calcChSum_fold16 xorWords_zero by (simp add: read16_def fold16_def foldSum_def)
  from a b show ?thesis ..
qed

text \<open>
  C10, amended: with the context in the byte order of the host (little-endian) and a size
  of at least 16, \<open>calcChSum\<close> does not depend on the bytes 14-15. In either byte order the
  test of \<open>checkBlockHeader\<close>, the stored checksum equals \<open>calcChSum\<close>, holds exactly when
  the XOR of the 8-byte words, folded by \<open>sum ^= sum >> 32; sum ^= sum >> 16\<close>, is zero in
  its low 16 bits.
\<close>

theorem calcChSum_stored_checksum:
  assumes "16 \<le> sz"
  shows "calcChSum False (buf(14 := a, 15 := b)) sz = calcChSum False buf sz \<and>
         ((read16 be buf 14 = calcChSum be buf sz) \<longleftrightarrow> fold16 (xorWords buf (sz div 8)) = 0)"
  using calcChSum_little_independent [OF assms] checksum_test_iff by blast

theorem calcChSum_stored_checksum_witness:
  "(16::nat) \<le> 512 \<and>
   calcChSum False ((blockSeq 10)(14 := 0xAB, 15 := 0xCD)) 512 = calcChSum False (blockSeq 10) 512 \<and>
   ((read16 False (blockSeq 10) 14 = calcChSum False (blockSeq 10) 512) \<longleftrightarrow>
      fold16 (xorWords (blockSeq 10) (512 div 8)) = 0)"
proof -
  have h: "(16::nat) \<le> 512" by simp
  from calcChSum_stored_checksum [OF h, of "blockSeq 10" "0xAB" "0xCD" False] h
  show ?thesis by blast
qed

section \<open>Results: block and file header\<close>

lemma read32_blockSeq: "read32 False (blockSeq s) 8 = ucast s"
  by (simp add: read32_def blockSeq_def)

text \<open>
  C3, as stated: for a reader of group 1 expecting sequence 10, a block whose header
  sequence 9 is lower gives \<open>OVERWRITTEN\<close> and one whose header sequence 11 is higher
  gives \<open>EMPTY\<close>. The code returns the two codes the other way round.
\<close>

theorem checkBlockHeader_sequence_counterexample:
  "group (reader0\<lparr>group := 1\<rparr>) \<noteq> 0 \<and> sequence (reader0\<lparr>group := 1\<rparr>) = 10 \<and>
   read32 False (blockSeq 9) 8 = 9 \<and>
   fst (checkBlockHeader (blockSeq 9) 5 True (reader0\<lparr>group := 1\<rparr>)) = EMPTY \<and>
   read32 False (blockSeq 11) 8 = 11 \<and>
   fst (checkBlockHeader (blockSeq 11) 5 True (reader0\<lparr>group := 1\<rparr>)) = OVERWRITTEN"
  by (simp add: checkBlockHeader_def checkSequence_def read32_blockSeq reader0_def ctx0_def
        Seq_zero_def)
     (simp add: blockSeq_def)

text \<open>
  C3, amended: for a reader with \<open>group \<noteq> 0\<close> whose sequence is set and whose status is
  not \<open>UPDATE\<close>, and a block that does not start with two zero bytes and whose byte 1 fits
  the block size, \<open>checkBlockHeader\<close> returns \<open>EMPTY\<close> when the header sequence is
  lower than the expected one (the block still holds data of an earlier use of the log) and
  \<open>OVERWRITTEN\<close> when it is higher (the log has been reused); the reader is unchanged.
\<close>

theorem checkBlockHeader_sequence_mismatch:
  assumes "group r \<noteq> 0"
    and "\<not> (buf 0 = 0 \<and> buf 1 = 0)"
    and "\<not> ((blockSize r = 512 \<and> buf 1 \<noteq> 0x22) \<or> (blockSize r = 1024 \<and> buf 1 \<noteq> 0x22) \<or>
            (blockSize r = 4096 \<and> buf 1 \<noteq> 0x82))"
    and "sequence r \<noteq> Seq_zero" and "status r \<noteq> UPDATE"
  shows "(read32 (bigEndian (ctx r)) buf 8 < sequence r \<longrightarrow>
            checkBlockHeader buf blockNumber showHint r = (EMPTY, r)) \<and>
         (sequence r < read32 (bigEndian (ctx r)) buf 8 \<longrightarrow>
            checkBlockHeader buf blockNumber showHint r = (OVERWRITTEN, r))"
  using assms by (auto simp: checkBlockHeader_def checkSequence_def Let_def)

theorem checkBlockHeader_sequence_mismatch_witness:
  "checkBlockHeader (blockSeq 9) 5 True (reader0\<lparr>group := 1\<rparr>) = (EMPTY, reader0\<lparr>group := 1\<rparr>) \<and>
   checkBlockHeader (blockSeq 11) 5 True (reader0\<lparr>group := 1\<rparr>) = (OVERWRITTEN, reader0\<lparr>group := 1\<rparr>)"
proof -
  let ?r = "reader0\<lparr>group := 1\<rparr>"
  have g: "group ?r \<noteq> 0" by simp
  have s: "sequence ?r \<noteq> Seq_zero" "status ?r \<noteq> UPDATE"
    by (simp_all add: reader0_def Seq_zero_def)
  have b: "\<not> (blockSeq x 0 = 0 \<and> blockSeq x 1 = 0)"
    "\<not> ((blockSize ?r = 512 \<and> blockSeq x 1 \<noteq> 0x22) \<or> (blockSize ?r = 1024 \<and> blockSeq x 1 \<noteq> 0x22) \<or>
            (blockSize ?r = 4096 \<and> blockSeq x 1 \<noteq> 0x82))" for x
    by (simp_all add: blockSeq_def reader0_def)
  have lo: "read32 (bigEndian (ctx ?r)) (blockSeq 9) 8 < sequence ?r"
    by (simp add: reader0_def ctx0_def read32_blockSeq)
  have hi: "sequence ?r < read32 (bigEndian (ctx ?r)) (blockSeq 11) 8"
    by (simp add: reader0_def ctx0_def read32_blockSeq)
  from checkBlockHeader_sequence_mismatch [OF g b(1) [of 9] b(2) [of 9] s, of 5 True] lo
       checkBlockHeader_sequence_mismatch [OF g b(1) [of 11] b(2) [of 11] s, of 5 True] hi
  show ?thesis by blast
qed

lemma headerCopy_fields:
  "headerCopy env n r = Inr (c, r') \<Longrightarrow>
   blockSize r' = blockSize r \<and> headerBuffer r' = headerBuffer r \<and> ctx r' = ctx r"
  by (auto simp: headerCopy_def Let_def logEvent_def split: if_splits)

lemma headerFetch_early:
  "headerFetch env r = Inl (c, r') \<Longrightarrow> c \<noteq> OK"
  by (auto simp: headerFetch_def Let_def split: if_splits prod.splits)

lemma reloadHeaderRead_OK:
  assumes ok: "reloadHeaderRead env r = Inr (OK, r')"
  shows "blockSize r' = read32 (bigEndian (ctx r')) (headerBuffer r') 20 \<and>
      ((blockSize r' = 512 \<or> blockSize r' = 1024) \<and> headerBuffer r' 1 = 0x22 \<or>
       blockSize r' = 4096 \<and> headerBuffer r' 1 = 0x82)"
proof -
  from ok obtain n0 r0 where f: "headerFetch env r = Inr (n0, r0)"
    using headerFetch_early [of env r OK r']
    by (auto simp: reloadHeaderRead_def split: sum.splits)
  let ?r2 = "r0\<lparr>blockSize := read32 (bigEndian (ctx r0)) (headerBuffer r0) 20\<rparr>"
  from ok f have bs: "blockSizeOK (blockSize ?r2) (headerBuffer ?r2 1)"
    and cp: "headerCopy env n0 ?r2 = Inr (OK, r')"
    by (auto simp: reloadHeaderRead_def Let_def split: if_splits)
  from headerCopy_fields [OF cp]
  have "blockSize r' = blockSize ?r2" "headerBuffer r' = headerBuffer ?r2" "ctx r' = ctx ?r2"
    by simp_all
  with bs show ?thesis
    by (auto simp: blockSizeOK_def)
qed

lemma reloadHeaderRead_bad_size:
  assumes "headerFetch env r = Inr (n, r1)"
    and "\<not> ((read32 (bigEndian (ctx r1)) (headerBuffer r1) 20 = 512 \<or>
         read32 (bigEndian (ctx r1)) (headerBuffer r1) 20 = 1024) \<and> headerBuffer r1 1 = 0x22 \<or>
        read32 (bigEndian (ctx r1)) (headerBuffer r1) 20 = 4096 \<and> headerBuffer r1 1 = 0x82)"
  shows "reloadHeaderRead env r =
      Inr (ERROR_BAD_DATA, (logEvent (LogError 40005) r1)\<lparr>blockSize := 0\<rparr>)"
  using assms by (auto simp: reloadHeaderRead_def Let_def blockSizeOK_def logEvent_def)

lemma headerCopy_no_path:
  "redoCopyPathEmpty (ctx r) \<Longrightarrow> headerCopy env n r = Inr (OK, r)"
  by (simp add: headerCopy_def)

lemma headerCopy_succeeds:
  assumes "openCopy env \<noteq> -1" and "\<And>a. pwriteCopy env a = a"
  shows "\<exists>r'. headerCopy env n r = Inr (OK, r')"
proof (cases "redoCopyPathEmpty (ctx r)")
  case True
  then show ?thesis by (simp add: headerCopy_def)
next
  case False
  then show ?thesis
    unfolding headerCopy_def Let_def
    by (simp only: assms if_False simp_thms) simp
qed

lemma reloadHeaderRead_accept:
  assumes f: "headerFetch env r = Inr (n, r1)"
    and v: "(read32 (bigEndian (ctx r1)) (headerBuffer r1) 20 = 512 \<or>
             read32 (bigEndian (ctx r1)) (headerBuffer r1) 20 = 1024) \<and> headerBuffer r1 1 = 0x22 \<or>
            read32 (bigEndian (ctx r1)) (headerBuffer r1) 20 = 4096 \<and> headerBuffer r1 1 = 0x82"
    and e: "\<not> n < sint (read32 (bigEndian (ctx r1)) (headerBuffer r1) 20 * 2)"
  shows "reloadHeaderRead env r =
           headerCopy env n (r1\<lparr>blockSize := read32 (bigEndian (ctx r1)) (headerBuffer r1) 20\<rparr>)"
proof -
  define r2 where "r2 = r1\<lparr>blockSize := read32 (bigEndian (ctx r1)) (headerBuffer r1) 20\<rparr>"
  have b: "blockSize r2 = read32 (bigEndian (ctx r1)) (headerBuffer r1) 20"
    "headerBuffer r2 = headerBuffer r1"
    by (simp_all add: r2_def)
  have ok: "blockSizeOK (blockSize r2) (headerBuffer r2 1)"
    using v unfolding b blockSizeOK_def by blast
  have e2: "\<not> n < sint (blockSize r2 * 2)"
    using e unfolding b .
  have "reloadHeaderRead env r =
     (if \<not> blockSizeOK (blockSize r2) (headerBuffer r2 1)
      then Inr (ERROR_BAD_DATA, (logEvent (LogError 40005) r2)\<lparr>blockSize := 0\<rparr>)
      else if n < sint (blockSize r2 * 2) then Inr (ERROR_READ, logEvent (LogError 40003) r2)
      else headerCopy env n r2)"
    by (simp only: reloadHeaderRead_def f sum.case prod.case Let_def r2_def)
  also have "\<dots> = headerCopy env n r2"
    by (simp only: ok e2 if_False simp_thms)
  finally show ?thesis unfolding r2_def .
qed

text \<open>
  C6. \<open>reloadHeaderRead\<close> returns \<open>OK\<close> only with \<open>blockSize\<close> equal to the size field at
  bytes 20-23 of block 0 and that field 512 or 1024 with byte 1 equal to \<open>0x22\<close>, or 4096
  with byte 1 equal to \<open>0x82\<close>. When the header has been read and has passed the checks
  of byte 0 and of the byte-order marker, any other combination of size field and byte 1
  logs error 40005, sets \<open>blockSize\<close> to 0 and returns \<open>ERROR_BAD_DATA\<close>; and each of
  the three valid combinations, when two blocks of that size have been read, is accepted:
  \<open>blockSize\<close> becomes the size field and the result is that of the copy to the archive
  path, which is \<open>OK\<close> when no copy path is configured and whenever the copy file opens
  and the write is complete.
\<close>

theorem reloadHeaderRead_blockSize:
  "(reloadHeaderRead env r = Inr (OK, r') \<longrightarrow>
      blockSize r' = read32 (bigEndian (ctx r')) (headerBuffer r') 20 \<and>
      ((blockSize r' = 512 \<or> blockSize r' = 1024) \<and> headerBuffer r' 1 = 0x22 \<or>
       blockSize r' = 4096 \<and> headerBuffer r' 1 = 0x82)) \<and>
   (headerFetch env r = Inr (n, r1) \<and>
    \<not> ((read32 (bigEndian (ctx r1)) (headerBuffer r1) 20 = 512 \<or>
         read32 (bigEndian (ctx r1)) (headerBuffer r1) 20 = 1024) \<and> headerBuffer r1 1 = 0x22 \<or>
        read32 (bigEndian (ctx r1)) (headerBuffer r1) 20 = 4096 \<and> headerBuffer r1 1 = 0x82) \<longrightarrow>
      reloadHeaderRead env r = Inr (ERROR_BAD_DATA, (logEvent (LogError 40005) r1)\<lparr>blockSize := 0\<rparr>)) \<and>
   (headerFetch env r = Inr (n, r1) \<and>
    ((read32 (bigEndian (ctx r1)) (headerBuffer r1) 20 = 512 \<or>
      read32 (bigEndian (ctx r1)) (headerBuffer r1) 20 = 1024) \<and> headerBuffer r1 1 = 0x22 \<or>
     read32 (bigEndian (ctx r1)) (headerBuffer r1) 20 = 4096 \<and> headerBuffer r1 1 = 0x82) \<and>
    \<not> n < sint (read32 (bigEndian (ctx r1)) (headerBuffer r1) 20 * 2) \<longrightarrow>
      reloadHeaderRead env r =
        headerCopy env n (r1\<lparr>blockSize := read32 (bigEndian (ctx r1)) (headerBuffer r1) 20\<rparr>) \<and>
      (redoCopyPathEmpty (ctx r1) \<longrightarrow>
         reloadHeaderRead env r =
           Inr (OK, r1\<lparr>blockSize := read32 (bigEndian (ctx r1)) (headerBuffer r1) 20\<rparr>)) \<and>
      (openCopy env \<noteq> -1 \<and> (\<forall>a. pwriteCopy env a = a) \<longrightarrow>
         (\<exists>r2. reloadHeaderRead env r = Inr (OK, r2) \<and>
               blockSize r2 = read32 (bigEndian (ctx r1)) (headerBuffer r1) 20)))"
proof -
  let ?F = "read32 (bigEndian (ctx r1)) (headerBuffer r1) 20"
  let ?V = "(?F = 512 \<or> ?F = 1024) \<and> headerBuffer r1 1 = 0x22 \<or> ?F = 4096 \<and> headerBuffer r1 1 = 0x82"
  have acc: "reloadHeaderRead env r = headerCopy env n (r1\<lparr>blockSize := ?F\<rparr>) \<and>
      (redoCopyPathEmpty (ctx r1) \<longrightarrow> reloadHeaderRead env r = Inr (OK, r1\<lparr>blockSize := ?F\<rparr>)) \<and>
      (openCopy env \<noteq> -1 \<and> (\<forall>a. pwriteCopy env a = a) \<longrightarrow>
         (\<exists>r2. reloadHeaderRead env r = Inr (OK, r2) \<and> blockSize r2 = ?F))"
    if f: "headerFetch env r = Inr (n, r1)" and v: ?V and e: "\<not> n < sint (?F * 2)"
  proof -
    have eq: "reloadHeaderRead env r = headerCopy env n (r1\<lparr>blockSize := ?F\<rparr>)"
      using f v e by (rule reloadHeaderRead_accept)
    have p: "reloadHeaderRead env r = Inr (OK, r1\<lparr>blockSize := ?F\<rparr>)"
      if "redoCopyPathEmpty (ctx r1)"
      unfolding eq using that by (simp add: headerCopy_no_path)
    have q: "\<exists>r2. reloadHeaderRead env r = Inr (OK, r2) \<and> blockSize r2 = ?F"
      if o: "openCopy env \<noteq> -1" and w: "\<forall>a. pwriteCopy env a = a"
    proof -
      from w have w': "pwriteCopy env a = a" for a by simp
      from headerCopy_succeeds [OF o w', of n "r1\<lparr>blockSize := ?F\<rparr>"]
      obtain r2 where c: "headerCopy env n (r1\<lparr>blockSize := ?F\<rparr>) = Inr (OK, r2)" by blast
      from headerCopy_fields [OF c] have "blockSize r2 = ?F" by simp
      with c eq show ?thesis by simp
    qed
    from eq p q show ?thesis by blast
  qed
  from reloadHeaderRead_OK [of env r r'] reloadHeaderRead_bad_size [of env r n r1] acc
  show ?thesis by blast
qed

lemma fetch_hdr: 
  "h 0 = 0 \<Longrightarrow> h 28 = 0x7D \<Longrightarrow> h 29 = 0x7C \<Longrightarrow> h 30 = 0x7B \<Longrightarrow> h 31 = 0x7A \<Longrightarrow>
   headerFetch (env0r h) reader0 = Inr (1024, reader0\<lparr>headerBuffer := h\<rparr>)"
  by (simp add: headerFetch_def env0r_def reader0_def ctx0_def Let_def)

lemma read_hdr512:
  "reloadHeaderRead (env0r hdr512) reader0 = Inr (OK, reader0\<lparr>headerBuffer := hdr512\<rparr>)"
proof -
  have f: "headerFetch (env0r hdr512) reader0 = Inr (1024, reader0\<lparr>headerBuffer := hdr512\<rparr>)"
    by (rule fetch_hdr) (simp_all add: hdr512_def)
  have s: "read32 False hdr512 20 = 512" by (simp add: read32_def hdr512_def)
  have b: "hdr512 (Suc 0) = 0x22" by (simp add: hdr512_def)
  show ?thesis
    unfolding reloadHeaderRead_def f
    by (simp add: reader0_def ctx0_def s b blockSizeOK_def headerCopy_def Let_def)
qed

lemma fetch_hdr0:
  "h 0 = 0 \<Longrightarrow> h 28 = 0x7D \<Longrightarrow> h 29 = 0x7C \<Longrightarrow> h 30 = 0x7B \<Longrightarrow> h 31 = 0x7A \<Longrightarrow>
   headerFetch (env0r h) (reader0\<lparr>blockSize := 0\<rparr>) =
     Inr (8192, reader0\<lparr>blockSize := 0, headerBuffer := h\<rparr>)"
  by (simp add: headerFetch_def env0r_def reader0_def ctx0_def Let_def PAGE_SIZE_MAX_def)

theorem reloadHeaderRead_blockSize_witness:
  "reloadHeaderRead (env0r hdr512) reader0 = Inr (OK, reader0\<lparr>headerBuffer := hdr512\<rparr>) \<and>
   blockSize (reader0\<lparr>headerBuffer := hdr512\<rparr>) = 512 \<and> hdr512 1 = 0x22 \<and>
   read32 False hdr1024 20 = 1024 \<and> hdr1024 1 = 0x22 \<and>
   (\<exists>r2. reloadHeaderRead (env0r hdr1024) (reader0\<lparr>blockSize := 0\<rparr>) = Inr (OK, r2) \<and>
         blockSize r2 = 1024) \<and>
   read32 False hdr4096 20 = 4096 \<and> hdr4096 1 = 0x82 \<and>
   (\<exists>r2. reloadHeaderRead (env0r hdr4096) (reader0\<lparr>blockSize := 0\<rparr>) = Inr (OK, r2) \<and>
         blockSize r2 = 4096) \<and>
   headerFetch (env0r hdr2048) reader0 = Inr (1024, reader0\<lparr>headerBuffer := hdr2048\<rparr>) \<and>
   read32 False hdr2048 20 = 2048 \<and>
   reloadHeaderRead (env0r hdr2048) reader0 =
     Inr (ERROR_BAD_DATA, (logEvent (LogError 40005) (reader0\<lparr>headerBuffer := hdr2048\<rparr>))\<lparr>blockSize := 0\<rparr>)"
proof -
  let ?r0 = "reader0\<lparr>blockSize := 0\<rparr>"
  have f: "headerFetch (env0r hdr2048) reader0 = Inr (1024, reader0\<lparr>headerBuffer := hdr2048\<rparr>)"
    by (rule fetch_hdr) (simp_all add: hdr2048_def)
  have f1: "headerFetch (env0r hdr1024) ?r0 = Inr (8192, reader0\<lparr>blockSize := 0, headerBuffer := hdr1024\<rparr>)"
    by (rule fetch_hdr0) (simp_all add: hdr1024_def)
  have f4: "headerFetch (env0r hdr4096) ?r0 = Inr (8192, reader0\<lparr>blockSize := 0, headerBuffer := hdr4096\<rparr>)"
    by (rule fetch_hdr0) (simp_all add: hdr4096_def)
  have s: "read32 False hdr2048 20 = 2048" by (simp add: read32_def hdr2048_def)
  have s1: "read32 False hdr1024 20 = 1024" by (simp add: read32_def hdr1024_def)
  have s4: "read32 False hdr4096 20 = 4096" by (simp add: read32_def hdr4096_def)
  have be: "bigEndian (ctx reader0) = False"
    by (simp add: reader0_def ctx0_def)
  have b: "hdr512 1 = 0x22" "hdr1024 1 = 0x22" "hdr4096 1 = 0x82"
    by (simp_all add: hdr512_def hdr1024_def hdr4096_def)
  have env: "openCopy (env0r h) \<noteq> -1" "\<forall>a. pwriteCopy (env0r h) a = a" for h
    by (simp_all add: env0r_def)
  from reloadHeaderRead_blockSize [where env = "env0r hdr512" and r = reader0
         and r' = "reader0\<lparr>headerBuffer := hdr512\<rparr>" and n = 0 and ?r1.0 = reader0]
       read_hdr512
  have w512: "blockSize (reader0\<lparr>headerBuffer := hdr512\<rparr>) = 512"
    by (simp add: reader0_def)
  let ?q1024 = "reader0\<lparr>blockSize := 0, headerBuffer := hdr1024\<rparr>"
  have F1024: "read32 (bigEndian (ctx ?q1024)) (headerBuffer ?q1024) 20 = 1024"
    by (simp add: be s1)
  have h1024: "headerFetch (env0r hdr1024) ?r0 = Inr (8192, ?q1024) \<and>
      ((read32 (bigEndian (ctx ?q1024)) (headerBuffer ?q1024) 20 = 512 \<or>
        read32 (bigEndian (ctx ?q1024)) (headerBuffer ?q1024) 20 = 1024) \<and>
         headerBuffer ?q1024 1 = 0x22 \<or>
       read32 (bigEndian (ctx ?q1024)) (headerBuffer ?q1024) 20 = 4096 \<and>
         headerBuffer ?q1024 1 = 0x82) \<and>
      \<not> 8192 < sint (read32 (bigEndian (ctx ?q1024)) (headerBuffer ?q1024) 20 * 2)"
    unfolding F1024 using f1 b by simp
  from reloadHeaderRead_blockSize [where env = "env0r hdr1024" and r = ?r0
         and r' = reader0 and n = 8192 and ?r1.0 = ?q1024]
       h1024 env [of hdr1024]
  have "\<exists>r2. reloadHeaderRead (env0r hdr1024) ?r0 = Inr (OK, r2) \<and>
          blockSize r2 = read32 (bigEndian (ctx ?q1024)) (headerBuffer ?q1024) 20"
    by blast
  then have w1024: "\<exists>r2. reloadHeaderRead (env0r hdr1024) ?r0 = Inr (OK, r2) \<and> blockSize r2 = 1024"
    unfolding F1024 .
  let ?q4096 = "reader0\<lparr>blockSize := 0, headerBuffer := hdr4096\<rparr>"
  have F4096: "read32 (bigEndian (ctx ?q4096)) (headerBuffer ?q4096) 20 = 4096"
    by (simp add: be s4)
  have h4096: "headerFetch (env0r hdr4096) ?r0 = Inr (8192, ?q4096) \<and>
      ((read32 (bigEndian (ctx ?q4096)) (headerBuffer ?q4096) 20 = 512 \<or>
        read32 (bigEndian (ctx ?q4096)) (headerBuffer ?q4096) 20 = 1024) \<and>
         headerBuffer ?q4096 1 = 0x22 \<or>
       read32 (bigEndian (ctx ?q4096)) (headerBuffer ?q4096) 20 = 4096 \<and>
         headerBuffer ?q4096 1 = 0x82) \<and>
      \<not> 8192 < sint (read32 (bigEndian (ctx ?q4096)) (headerBuffer ?q4096) 20 * 2)"
    unfolding F4096 using f4 b by simp
  from reloadHeaderRead_blockSize [where env = "env0r hdr4096" and r = ?r0
         and r' = reader0 and n = 8192 and ?r1.0 = ?q4096]
       h4096 env [of hdr4096]
  have "\<exists>r2. reloadHeaderRead (env0r hdr4096) ?r0 = Inr (OK, r2) \<and>
          blockSize r2 = read32 (bigEndian (ctx ?q4096)) (headerBuffer ?q4096) 20"
    by blast
  then have w4096: "\<exists>r2. reloadHeaderRead (env0r hdr4096) ?r0 = Inr (OK, r2) \<and> blockSize r2 = 4096"
    unfolding F4096 .
  from reloadHeaderRead_blockSize [where env = "env0r hdr2048" and r = reader0 and r' = reader0
         and n = 1024 and ?r1.0 = "reader0\<lparr>headerBuffer := hdr2048\<rparr>"]
       f s
  have w2048: "reloadHeaderRead (env0r hdr2048) reader0 =
     Inr (ERROR_BAD_DATA, (logEvent (LogError 40005) (reader0\<lparr>headerBuffer := hdr2048\<rparr>))\<lparr>blockSize := 0\<rparr>)"
    by (simp add: be)
  from read_hdr512 w512 b s1 w1024 s4 w4096 f s w2048 show ?thesis by blast
qed

section \<open>Results: the header reload\<close>


lemma sleeps_events: "events r' = events r \<Longrightarrow> sleeps r' = sleeps r"
  by (simp add: sleeps_def)

lemma crcMismatch_keeps:
  "sleeps (crcMismatch sh r) = sleeps r \<and> blockSize (crcMismatch sh r) = blockSize r \<and>
   headerBuffer (crcMismatch sh r) = headerBuffer r \<and> ctx (crcMismatch sh r) = ctx r \<and>
   group (crcMismatch sh r) = group r \<and> nextScnHeader (crcMismatch sh r) = nextScnHeader r"
  by (simp add: crcMismatch_def Let_def sleeps_def logEvent_def)

lemma checkSequence_keeps:
  "sleeps (snd (checkSequence s r)) = sleeps r \<and>
   blockSize (snd (checkSequence s r)) = blockSize r \<and>
   headerBuffer (snd (checkSequence s r)) = headerBuffer r \<and>
   ctx (snd (checkSequence s r)) = ctx r \<and>
   group (snd (checkSequence s r)) = group r \<and>
   nextScnHeader (snd (checkSequence s r)) = nextScnHeader r"
  by (simp add: checkSequence_def sleeps_def logEvent_def)

lemma checkSum_keeps:
  "sleeps (snd (checkSum buf sh r)) = sleeps r \<and>
   blockSize (snd (checkSum buf sh r)) = blockSize r \<and>
   headerBuffer (snd (checkSum buf sh r)) = headerBuffer r \<and>
   ctx (snd (checkSum buf sh r)) = ctx r \<and>
   group (snd (checkSum buf sh r)) = group r \<and>
   nextScnHeader (snd (checkSum buf sh r)) = nextScnHeader r"
  by (simp add: checkSum_def crcMismatch_keeps)

lemma checkBlockHeader_keeps:
  "sleeps (snd (checkBlockHeader buf n sh r)) = sleeps r \<and>
   blockSize (snd (checkBlockHeader buf n sh r)) = blockSize r \<and>
   headerBuffer (snd (checkBlockHeader buf n sh r)) = headerBuffer r \<and>
   ctx (snd (checkBlockHeader buf n sh r)) = ctx r \<and>
   group (snd (checkBlockHeader buf n sh r)) = group r \<and>
   nextScnHeader (snd (checkBlockHeader buf n sh r)) = nextScnHeader r"
proof -
  obtain c r1 where cs: "checkSequence (read32 (bigEndian (ctx r)) buf 8) r = (c, r1)"
    by (cases "checkSequence (read32 (bigEndian (ctx r)) buf 8) r")
  from checkSequence_keeps [of "read32 (bigEndian (ctx r)) buf 8" r] cs
  have k1: "sleeps r1 = sleeps r" "blockSize r1 = blockSize r" "headerBuffer r1 = headerBuffer r"
    "ctx r1 = ctx r" "group r1 = group r" "nextScnHeader r1 = nextScnHeader r"
    by simp_all
  have k2: "sleeps (logEvent (LogError x) q) = sleeps q" "blockSize (logEvent e q) = blockSize q"
    "headerBuffer (logEvent e q) = headerBuffer q" "ctx (logEvent e q) = ctx q"
    "group (logEvent e q) = group q" "nextScnHeader (logEvent e q) = nextScnHeader q" for x e q
    by (simp_all add: sleeps_def logEvent_def)
  show ?thesis
    unfolding checkBlockHeader_def Let_def cs
    by (cases c) (simp_all add: k1 k2 checkSum_keeps)
qed





























section \<open>Results: the first read\<close>

lemma read1Fetch_keeps:
  assumes "read1Fetch env r = Inr (a, num, pos, r1)"
  shows "group r1 = group r \<and> nextScnHeader r1 = nextScnHeader r \<and> blockSize r1 = blockSize r"
proof -
  define toRead0 where "toRead0 = readSize env (lastRead r) r"
  define toRead1 where "toRead1 = (if bufferScan r + ucast toRead0 > fileSize r
                     then ucast (fileSize r - bufferScan r) else toRead0)"
  define rpos where "rpos = bufferScan r mod MEMORY_CHUNK_SIZE env"
  define rnum where "rnum = (bufferScan r div MEMORY_CHUNK_SIZE env) mod
                            memoryChunksReadBufferMax (ctx r)"
  define toRead where "toRead = (if rpos + ucast toRead1 > MEMORY_CHUNK_SIZE env
                    then ucast (MEMORY_CHUNK_SIZE env - rpos) else toRead1)"
  define q1 where "q1 = logEvent (BufferAllocate (unat rnum)) r"
  obtain ar bytes where rr: "redoRead env (bufferScan q1) toRead = (ar, bytes)"
    by (cases "redoRead env (bufferScan q1) toRead")
  define q2 where "q2 = q1\<lparr>redoBufferList := (redoBufferList q1)
                      (unat rnum := (\<lambda>i. if unat rpos \<le> i \<and> int i < int (unat rpos) + ar
                                    then bytes (i - unat rpos)
                                    else redoBufferList q1 (unat rnum) i))\<rparr>"
  define q3 where "q3 = (if metricsSet (ctx q2) then logEvent (EmitBytesRead ar) q2 else q2)"
  define q4 where "q4 = logEvent (CopyWrite ar (bufferEnd q3)) q3"
  note rr' = rr [unfolded q1_def toRead_def rnum_def rpos_def toRead1_def toRead0_def]
  have eq: "read1Fetch env r =
     (if toRead = 0 then Inl ((logEvent (LogError 40010) r)\<lparr>ret := ERROR\<rparr>)
      else if ar < 0 then Inl ((logEvent (LogError 40003) q2)\<lparr>ret := ERROR_READ\<rparr>)
      else if ar > 0 \<and> fileCopyDes q3 \<noteq> -1 \<and> (redoVerifyDelayUs (ctx q3) = 0 \<or> group q3 = 0)
      then (if pwriteCopy env ar \<noteq> ar
            then Inl ((logEvent (LogError 10007) q4)\<lparr>ret := ERROR_WRITE\<rparr>)
            else Inr (ar, unat rnum, unat rpos, q4))
      else Inr (ar, unat rnum, unat rpos, q3))"
    by (simp only: read1Fetch_def Let_def q4_def q3_def q2_def q1_def toRead_def rnum_def
          rpos_def toRead1_def toRead0_def rr' prod.case)
  have k1: "group q1 = group r" "nextScnHeader q1 = nextScnHeader r" "blockSize q1 = blockSize r"
    by (simp_all add: q1_def logEvent_def)
  have k2: "group q2 = group r" "nextScnHeader q2 = nextScnHeader r" "blockSize q2 = blockSize r"
    using k1 by (simp_all add: q2_def)
  have k3: "group q3 = group r" "nextScnHeader q3 = nextScnHeader r" "blockSize q3 = blockSize r"
    using k2 by (simp_all add: q3_def logEvent_def)
  have k4: "group q4 = group r" "nextScnHeader q4 = nextScnHeader r" "blockSize q4 = blockSize r"
    using k3 by (simp_all add: q4_def logEvent_def)
  from assms [unfolded eq] have "r1 = q3 \<or> r1 = q4"
    by (auto split: if_splits)
  with k3 k4 show ?thesis by auto
qed

lemma checkBlocks_first:
  assumes "m = 0 \<or> fst (checkBlockHeader chunk bsb sh r) \<noteq> OK"
  shows "\<exists>c r2. checkBlocks chunk bsb sh m 0 r = (c, 0, r2) \<and> group r2 = group r \<and>
           nextScnHeader r2 = nextScnHeader r"
proof (cases "0 < m")
  case False
  then have "checkBlocks chunk bsb sh m 0 r = (OK, 0, r)"
    by (subst checkBlocks.simps) simp
  then show ?thesis by simp
next
  case True
  with assms have bad: "fst (checkBlockHeader chunk bsb sh r) \<noteq> OK" by simp
  have blk: "(\<lambda>i. chunk (unat (of_nat 0 * blockSize r) + i)) = chunk"
    by simp
  have "checkBlocks chunk bsb sh m 0 r =
          (fst (checkBlockHeader chunk bsb sh r), 0, snd (checkBlockHeader chunk bsb sh r))"
    by (subst checkBlocks.simps) (simp add: True bad Let_def)
  with checkBlockHeader_keeps [of chunk bsb sh r] show ?thesis by simp
qed

lemma endOfFile_result:
  "(if nextScnHeader r \<noteq> Scn_none
    then ret (endOfFile r) = FINISHED \<and> nextScn (endOfFile r) = nextScnHeader r
    else ret (endOfFile r) = STOPPED \<and> last (events (endOfFile r)) = LogWarning 60023)"
  by (simp add: endOfFile_def logEvent_def)

text \<open>
  C7. For a reader of group 0 whose read of the next run of blocks has succeeded (there
  was something to read, and neither the read nor the copy to the archive path failed),
  when no block is good, that is when no complete block was read or the first block fails
  \<open>checkBlockHeader\<close> with any code (\<open>EMPTY\<close> for a zero-filled block), \<open>read1\<close>
  returns false with \<open>ret = FINISHED\<close> and \<open>nextScn = nextScnHeader\<close> when the header
  carries a next SCN, and otherwise with \<open>ret = STOPPED\<close> after the warning 60023.
\<close>

theorem read1_end_of_file:
  assumes "read1Fetch env r = Inr (actualRead, num, pos, r1)"
    and "group r = 0"
    and "unat ((word_of_int actualRead :: 32 word) div blockSize r1) = 0 \<or>
         fst (checkBlockHeader (\<lambda>i. redoBufferList r1 num (pos + i))
                (ucast (bufferScan r1 div ucast (blockSize r1))) True r1) \<noteq> OK"
  shows "\<exists>r'. read1 env r = Inr (False, r') \<and>
           (if nextScnHeader r \<noteq> Scn_none
            then ret r' = FINISHED \<and> nextScn r' = nextScnHeader r
            else ret r' = STOPPED \<and> last (events r') = LogWarning 60023)"
proof -
  from read1Fetch_keeps [OF assms(1)] assms(2)
  have k: "group r1 = 0" "nextScnHeader r1 = nextScnHeader r" by simp_all
  let ?chunk = "\<lambda>i. redoBufferList r1 num (pos + i)"
  let ?bsb = "ucast (bufferScan r1 div ucast (blockSize r1)) :: 32 word"
  let ?m = "unat ((word_of_int actualRead :: 32 word) div blockSize r1)"
  from checkBlocks_first [of ?m ?chunk ?bsb True r1] assms(3)
  obtain c r2 where cb: "checkBlocks ?chunk ?bsb True ?m 0 r1 = (c, 0, r2)"
    and k2: "group r2 = group r1" "nextScnHeader r2 = nextScnHeader r1"
    by blast
  have "read1 env r = read1Decide env c 0 num pos r2"
    by (simp add: read1_def assms(1) Let_def k(1) cb)
  also have "\<dots> = Inr (False, endOfFile r2)"
    by (simp add: read1Decide_def k2 k)
  finally have "read1 env r = Inr (False, endOfFile r2)" .
  with endOfFile_result [of r2] k2 k show ?thesis
    by (intro exI [of _ "endOfFile r2"]) simp
qed

lemma read1Fetch_zero:
  "\<exists>r1. read1Fetch (env0r (\<lambda>i. 0)) (reader0\<lparr>nextScnHeader := s\<rparr>) = Inr (1024, 0, 1024, r1) \<and>
        (\<forall>i. redoBufferList r1 0 i = 0)"
  by (simp add: read1Fetch_def readSize_def env0r_def reader0_def ctx0_def logEvent_def Let_def)

theorem read1_end_of_file_witness:
  "(\<exists>r'. read1 (env0r (\<lambda>i. 0)) (reader0\<lparr>nextScnHeader := Scn_none\<rparr>) = Inr (False, r') \<and>
         ret r' = STOPPED \<and> last (events r') = LogWarning 60023) \<and>
   (\<exists>r'. read1 (env0r (\<lambda>i. 0)) (reader0\<lparr>nextScnHeader := 5000\<rparr>) = Inr (False, r') \<and>
         ret r' = FINISHED \<and> nextScn r' = 5000)"
proof -
  have w: "\<exists>r'. read1 (env0r (\<lambda>i. 0)) (reader0\<lparr>nextScnHeader := s\<rparr>) = Inr (False, r') \<and>
           (if nextScnHeader (reader0\<lparr>nextScnHeader := s\<rparr>) \<noteq> Scn_none
            then ret r' = FINISHED \<and> nextScn r' = nextScnHeader (reader0\<lparr>nextScnHeader := s\<rparr>)
            else ret r' = STOPPED \<and> last (events r') = LogWarning 60023)" for s
  proof -
    from read1Fetch_zero [of s] obtain r1 where
      f: "read1Fetch (env0r (\<lambda>i. 0)) (reader0\<lparr>nextScnHeader := s\<rparr>) = Inr (1024, 0, 1024, r1)"
      and z: "\<forall>i. redoBufferList r1 0 i = 0" by blast
    have g: "group (reader0\<lparr>nextScnHeader := s\<rparr>) = 0" by (simp add: reader0_def)
    have e: "fst (checkBlockHeader (\<lambda>i. redoBufferList r1 0 (1024 + i))
                (ucast (bufferScan r1 div ucast (blockSize r1))) True r1) \<noteq> OK"
      by (simp add: checkBlockHeader_def z)
    then have b: "unat ((word_of_int 1024 :: 32 word) div blockSize r1) = 0 \<or>
         fst (checkBlockHeader (\<lambda>i. redoBufferList r1 0 (1024 + i))
                (ucast (bufferScan r1 div ucast (blockSize r1))) True r1) \<noteq> OK" ..
    from read1_end_of_file [OF f g b] show ?thesis .
  qed
  have n: "(5000 :: Scn) \<noteq> Scn_none" by (simp add: Scn_none_def)
  from w [of Scn_none] w [of 5000] n show ?thesis by simp
qed

end
